theory Spec2Isabelle
  imports Complex_Main
begin

section \<open>JavaScript values and strings\<close>

text \<open>
  The bill browser is written in JavaScript. A JavaScript string is a sequence of UTF-16
  code units; the model uses \<^typ>\<open>string\<close>, whose characters are the code units below
  256 (Latin-1). The regular-expression classes of the source are written out over that
  range: \<open>\s\<close> is TAB, LF, VT, FF, CR, SPACE and NBSP; \<open>\w\<close> is \<open>[A-Za-z0-9_]\<close>; \<open>\d\<close> is
  \<open>[0-9]\<close>.
\<close>

definition is_space :: "char \<Rightarrow> bool" where
  "is_space c = ((of_char c :: nat) \<in> {9, 10, 11, 12, 13, 32, 160})"

definition is_word :: "char \<Rightarrow> bool" where
  "is_word c = (c \<in> set ''abcdefghijklmnopqrstuvwxyzABCDEFGHIJKLMNOPQRSTUVWXYZ0123456789_'')"

definition is_digit :: "char \<Rightarrow> bool" where
  "is_digit c = (c \<in> set ''0123456789'')"

text \<open>\<open>String.prototype.toLowerCase\<close>: \<open>A-Z\<close> and the Latin-1 capitals (all of
  \<open>0xC0..0xDE\<close> but the multiplication sign \<open>0xD7\<close>) move up by 32.\<close>

definition toLowerCase_char :: "char \<Rightarrow> char" where
  "toLowerCase_char c =
     (let n = (of_char c :: nat)
      in if (65 \<le> n \<and> n \<le> 90) \<or> (192 \<le> n \<and> n \<le> 222 \<and> n \<noteq> 215)
         then char_of (n + 32) else c)"

definition toLowerCase :: "string \<Rightarrow> string" where
  "toLowerCase s = map toLowerCase_char s"

definition trim :: "string \<Rightarrow> string" where
  "trim s = rev (dropWhile is_space (rev (dropWhile is_space s)))"

text \<open>\<open>text.replace(/\s+/g, ' ')\<close>: every maximal run of white space becomes one space.\<close>

function collapse_ws :: "string \<Rightarrow> string" where
  "collapse_ws [] = []"
| "collapse_ws (c # cs) =
     (if is_space c then CHR '' '' # collapse_ws (dropWhile is_space cs)
      else c # collapse_ws cs)"
  by pat_completeness auto
termination
  by (relation "measure length") (auto simp: less_Suc_eq_le length_dropWhile_le)

text \<open>\<open>s.split(/\W+/)\<close>: the pieces between maximal runs of non-word characters. A
  separator at either end leaves an empty piece there, and the empty string splits into
  one empty piece.\<close>

function split_nonword :: "string \<Rightarrow> string list" where
  "split_nonword s =
     (case dropWhile is_word s of
        [] \<Rightarrow> [takeWhile is_word s]
      | _ # rest \<Rightarrow>
          takeWhile is_word s # split_nonword (dropWhile (\<lambda>c. \<not> is_word c) rest))"
  by pat_completeness auto
termination
proof (relation "measure length")
  show "wf (measure length)" by simp
next
  fix s :: string and x rest
  assume "dropWhile is_word s = x # rest"
  then have "length rest < length s"
    by (metis length_dropWhile_le length_Cons less_Suc_eq_le not_less)
  moreover have "length (dropWhile (\<lambda>c. \<not> is_word c) rest) \<le> length rest"
    by (rule length_dropWhile_le)
  ultimately show "(dropWhile (\<lambda>c. \<not> is_word c) rest, s) \<in> measure length" by simp
qed

declare split_nonword.simps [simp del]

text \<open>A JavaScript \<open>Set\<close> built from an array keeps the first occurrence of every
  element, in order; its \<open>size\<close> is the length of that list.\<close>

definition js_set :: "'a list \<Rightarrow> 'a list" where
  "js_set xs = rev (remdups (rev xs))"

section \<open>Text utilities (textUtils.js)\<close>

text \<open>\<open>normalizeText\<close>. The guard \<open>!text || typeof text !== 'string'\<close> sends the empty
  string (the only falsy string) to the empty string.\<close>

definition normalizeText :: "string \<Rightarrow> string" where
  "normalizeText text =
     (if text = [] then [] else toLowerCase (trim (collapse_ws text)))"

definition stopWords :: "string list" where
  "stopWords =
     [''the'', ''and'', ''or'', ''but'', ''in'', ''on'', ''at'', ''to'', ''for'', ''of'', ''with'',
      ''by'', ''from'', ''up'', ''about'', ''into'', ''through'', ''during'', ''before'',
      ''after'', ''above'', ''below'', ''between'', ''among'', ''through'', ''during'',
      ''before'', ''after'', ''above'', ''below'', ''between'', ''among'', ''a'', ''an'',
      ''as'', ''are'', ''was'', ''were'', ''been'', ''be'', ''have'', ''has'', ''had'',
      ''do'', ''does'', ''did'', ''will'', ''would'', ''could'', ''should'', ''may'',
      ''might'', ''must'', ''can'', ''shall'', ''this'', ''that'', ''these'', ''those'']"

text \<open>\<open>word.match(/^\d+$/)\<close>: one or more digits and nothing else.\<close>

definition pure_number :: "string \<Rightarrow> bool" where
  "pure_number w = (w \<noteq> [] \<and> list_all is_digit w)"

definition extractKeywords :: "string \<Rightarrow> string list" where
  "extractKeywords text =
     (if text = [] then []
      else filter (\<lambda>word. \<not> pure_number word)
             (filter (\<lambda>word. length word > 2 \<and> word \<notin> set stopWords)
                (split_nonword (normalizeText text))))"

text \<open>\<open>truncateText\<close> and \<open>stripTags\<close>. \<open>substring(0, maxLength)\<close> with a negative bound
  is the empty string; \<open>/<[^>]*>/g\<close> deletes every span from a \<open><\<close> to the next \<open>>\<close>, and
  a \<open><\<close> that is never closed stays.\<close>

definition truncateText :: "string \<Rightarrow> int \<Rightarrow> string" where
  "truncateText text maxLength =
     (if text = [] then []
      else if int (length text) \<le> maxLength then text
      else trim (take (nat maxLength) text) @ ''...'')"

function strip_tag_spans :: "string \<Rightarrow> string" where
  "strip_tag_spans [] = []"
| "strip_tag_spans (c # cs) =
     (if c = CHR ''<'' \<and> CHR ''>'' \<in> set cs
      then strip_tag_spans (tl (dropWhile (\<lambda>d. d \<noteq> CHR ''>'') cs))
      else c # strip_tag_spans cs)"
  by pat_completeness auto
termination
proof (relation "measure length")
  show "wf (measure length)" by simp
next
  fix c :: char and cs :: string
  have "length (tl (dropWhile (\<lambda>d. d \<noteq> CHR ''>'') cs))
          \<le> length (dropWhile (\<lambda>d. d \<noteq> CHR ''>'') cs)"
    by simp
  also have "\<dots> \<le> length cs"
    by (rule length_dropWhile_le)
  finally show "(tl (dropWhile (\<lambda>d. d \<noteq> CHR ''>'') cs), c # cs) \<in> measure length"
    by simp
next
  fix c :: char and cs :: string
  show "(cs, c # cs) \<in> measure length" by simp
qed

definition stripTags :: "string \<Rightarrow> string" where
  "stripTags text = (if text = [] then [] else trim (strip_tag_spans text))"

text \<open>\<open>calculateSimilarity\<close>. The quotient of the two set sizes is an IEEE double in the
  source and an exact rational here; the two agree on whether a quotient is 0 or 1 and
  on whether two quotients of the same operands are equal.\<close>

definition calculateSimilarity :: "string \<Rightarrow> string \<Rightarrow> rat" where
  "calculateSimilarity text1 text2 =
     (if text1 = [] \<or> text2 = [] then 0
      else
        let words1 = js_set (extractKeywords text1);
            words2 = js_set (extractKeywords text2)
        in if length words1 = 0 \<or> length words2 = 0 then 0
           else
             let intersection = js_set (filter (\<lambda>word. word \<in> set words2) words1);
                 union = js_set (words1 @ words2)
             in of_nat (length intersection) / of_nat (length union))"

section \<open>JavaScript objects and numbers\<close>

text \<open>
  Values that cross the JSON boundary (tool arguments, request bodies, parsed model
  output). Numbers are the integers: a JSON number with a fraction is outside the model.
  An object is the list of its own properties in insertion order, with distinct keys.
  \<open>jsnum\<close> is what \<open>ToNumber\<close> yields: an integer, an infinity or \<open>NaN\<close>.
\<close>

datatype jsval =
    JUndefined
  | JNull
  | JBool bool
  | JNum int
  | JStr string
  | JArr "jsval list"
  | JObj "(string \<times> jsval) list"

datatype jsnum = NaN | NegInf | PosInf | Fin int

datatype js_error = Error string | TypeError string

text \<open>Truthiness (\<open>!x\<close>, \<open>x && y\<close>, \<open>x || y\<close>).\<close>

fun truthy :: "jsval \<Rightarrow> bool" where
  "truthy JUndefined = False"
| "truthy JNull = False"
| "truthy (JBool b) = b"
| "truthy (JNum n) = (n \<noteq> 0)"
| "truthy (JStr s) = (s \<noteq> [])"
| "truthy (JArr xs) = True"
| "truthy (JObj kvs) = True"

text \<open>The texts of the \<open>TypeError\<close>s are those of V8, the engine of Node.js.\<close>

definition quoted :: "string \<Rightarrow> string" where
  "quoted s = [CHR 0x27] @ s @ [CHR 0x27]"

definition cannot_read :: "string \<Rightarrow> string \<Rightarrow> js_error" where
  "cannot_read v k =
     TypeError (''Cannot read properties of '' @ v @ '' (reading '' @ quoted k @ '')'')"

text \<open>The destructuring \<open>const { k, ... } = input\<close> of a tool operation: it throws on
  \<open>undefined\<close> and \<open>null\<close>, naming the first property, and yields \<open>undefined\<close> where the
  value has no such property (no prototype defines one of the names used).\<close>

fun get_field :: "jsval \<Rightarrow> string \<Rightarrow> js_error + jsval" where
  "get_field JUndefined k =
     Inl (TypeError (''Cannot destructure property '' @ quoted k @
        '' of 'input' as it is undefined.''))"
| "get_field JNull k =
     Inl (TypeError (''Cannot destructure property '' @ quoted k @
        '' of 'input' as it is null.''))"
| "get_field (JObj kvs) k = Inr (case map_of kvs k of Some v \<Rightarrow> v | None \<Rightarrow> JUndefined)"
| "get_field v k = Inr JUndefined"

text \<open>Objects used as dictionaries: \<open>obj[k] = v\<close> keeps the position of a key that is
  already there and appends a new one.\<close>

definition obj_set :: "(string \<times> 'a) list \<Rightarrow> string \<Rightarrow> 'a \<Rightarrow> (string \<times> 'a) list" where
  "obj_set obj k v =
     (if k \<in> fst ` set obj then map (\<lambda>(k', v'). if k' = k then (k', v) else (k', v')) obj
      else obj @ [(k, v)])"

text \<open>A dictionary created by \<open>{}\<close> inherits the members of \<open>Object.prototype\<close>: reading
  one of these keys finds a function (or, for \<open>__proto__\<close>, the prototype object), which
  is truthy, where the dictionary has no own property of that name.\<close>

definition objectPrototypeKeys :: "string list" where
  "objectPrototypeKeys =
     [''constructor'', ''__defineGetter__'', ''__defineSetter__'', ''hasOwnProperty'',
      ''__lookupGetter__'', ''__lookupSetter__'', ''isPrototypeOf'', ''propertyIsEnumerable'',
      ''toString'', ''valueOf'', ''__proto__'', ''toLocaleString'']"

datatype 'a property = Own 'a | Inherited | Absent

definition get_property :: "(string \<times> 'a) list \<Rightarrow> string \<Rightarrow> 'a property" where
  "get_property obj k =
     (case map_of obj k of
        Some v \<Rightarrow> Own v
      | None \<Rightarrow> if k \<in> set objectPrototypeKeys then Inherited else Absent)"

text \<open>\<open>Object.entries\<close> lists the keys that are array indices (canonical decimal
  numerals below \<open>2^32 - 1\<close>) first, in ascending numeric order, and then the other keys in
  insertion order.\<close>

definition decimal :: "string \<Rightarrow> int" where
  "decimal k = foldl (\<lambda>n c. 10 * n + (of_char c - 48)) 0 k"

definition array_index :: "string \<Rightarrow> int option" where
  "array_index k =
     (if k \<noteq> [] \<and> list_all is_digit k \<and> (k = ''0'' \<or> hd k \<noteq> CHR ''0'') \<and>
         decimal k < 2 ^ 32 - 1
      then Some (decimal k) else None)"

definition object_entries :: "(string \<times> 'a) list \<Rightarrow> (string \<times> 'a) list" where
  "object_entries obj =
     sort_key (\<lambda>(k, v). case array_index k of Some n \<Rightarrow> n | None \<Rightarrow> 0)
       (filter (\<lambda>(k, v). array_index k \<noteq> None) obj)
     @ filter (\<lambda>(k, v). array_index k = None) obj"

text \<open>\<open>Math.min(x, c)\<close> for an integer constant \<open>c\<close>, and \<open>xs.slice(0, end)\<close>: a negative
  \<open>end\<close> counts from the end of the array, \<open>NaN\<close> is 0.\<close>

fun math_min :: "jsnum \<Rightarrow> int \<Rightarrow> jsnum" where
  "math_min NaN c = NaN"
| "math_min NegInf c = NegInf"
| "math_min PosInf c = Fin c"
| "math_min (Fin n) c = Fin (min n c)"

fun slice0 :: "'a list \<Rightarrow> jsnum \<Rightarrow> 'a list" where
  "slice0 xs NaN = []"
| "slice0 xs NegInf = []"
| "slice0 xs PosInf = xs"
| "slice0 xs (Fin n) = (if 0 \<le> n then take (nat n) xs else take (length xs - nat (- n)) xs)"

section \<open>The document snapshot and keyword search (documentParser.js)\<close>

record section_record =
  s_id :: string
  s_type :: string
  title :: string
  s_content :: string
  fullText :: string
  level :: nat
  parentId :: "string option"
  children :: "string list"

text \<open>The snapshot: the section map and the search index, two objects used as
  dictionaries. The tool operations are modelled on a section map whose prototype is
  \<open>Object.prototype\<close>, as it is unless a node of the document has the id \<open>__proto__\<close>.\<close>

record documentData =
  sections :: "(string \<times> section_record) list"
  searchIndex :: "(string \<times> string list) list"

text \<open>The state of the \<open>DocumentParser\<close> singleton: \<open>documentData\<close> is \<open>null\<close> until
  \<open>initialize\<close> has run.\<close>

record parser_state =
  parserData :: "documentData option"
  isInitialized :: bool

definition getDocumentData :: "parser_state \<Rightarrow> js_error + documentData option" where
  "getDocumentData p =
     (if \<not> isInitialized p then Inl (Error ''Document parser not initialized'')
      else Inr (parserData p))"

text \<open>
  The score table \<open>sectionScores\<close>, keyed by section id. The statement
  \<open>sectionScores[sectionId] = (sectionScores[sectionId] || 0) + 1\<close> counts in a section id
  that is not the name of a member of \<open>Object.prototype\<close>; \<open>plain_ids\<close> says that the
  index lists no other id, and the properties of the scores below are stated for such an
  index.
\<close>

definition bump :: "(string \<times> nat) list \<Rightarrow> string \<Rightarrow> (string \<times> nat) list" where
  "bump sectionScores sectionId =
     obj_set sectionScores sectionId
       ((case map_of sectionScores sectionId of Some n \<Rightarrow> n | None \<Rightarrow> 0) + 1)"

definition plain_ids :: "documentData \<Rightarrow> bool" where
  "plain_ids d =
     list_all (\<lambda>(keyword, ids). list_all (\<lambda>i. i \<notin> set objectPrototypeKeys) ids) (searchIndex d)"

text \<open>The loop over the keywords. \<open>searchIndex[keyword] || []\<close> is the indexed list, or
  the empty list for an unknown keyword; for a keyword that names an inherited member it
  is that member, and calling its \<open>forEach\<close> throws.\<close>

fun score_keywords ::
  "(string \<times> string list) list \<Rightarrow> string list \<Rightarrow> (string \<times> nat) list \<Rightarrow>
   js_error + (string \<times> nat) list" where
  "score_keywords index [] sectionScores = Inr sectionScores"
| "score_keywords index (keyword # keywords) sectionScores =
     (case get_property index keyword of
        Own matchingSections \<Rightarrow>
          score_keywords index keywords (foldl bump sectionScores matchingSections)
      | Absent \<Rightarrow> score_keywords index keywords sectionScores
      | Inherited \<Rightarrow> Inl (TypeError ''matchingSections.forEach is not a function''))"

text \<open>\<open>Array.prototype.sort\<close> is stable; the comparator \<open>b[1] - a[1]\<close> orders by
  descending score.\<close>

definition sort_by_score :: "(string \<times> nat) list \<Rightarrow> (string \<times> nat) list" where
  "sort_by_score entries = sort_key (\<lambda>(sectionId, score). - int score) entries"

text \<open>\<open>searchSections\<close> up to the \<open>slice\<close>: the ranked pairs of section id and score.
  \<open>this.documentData\<close> is read for the first keyword, if there is one.\<close>

definition rankedSections ::
  "parser_state \<Rightarrow> string \<Rightarrow> jsnum \<Rightarrow> js_error + (string \<times> nat) list" where
  "rankedSections p query limit =
     (if \<not> isInitialized p then Inl (Error ''Document parser not initialized'')
      else case parserData p of
        None \<Rightarrow>
          if extractKeywords query = [] then Inr []
          else Inl (cannot_read ''null'' ''searchIndex'')
      | Some d \<Rightarrow>
          (case score_keywords (searchIndex d) (extractKeywords query) [] of
             Inl e \<Rightarrow> Inl e
           | Inr sectionScores \<Rightarrow>
               Inr (slice0 (sort_by_score (object_entries sectionScores)) limit)))"

text \<open>The final \<open>map\<close>: each pair becomes \<open>{section: sections[sectionId], score}\<close>, where
  the section is \<open>undefined\<close> for an id the section map does not have.\<close>

record search_result =
  r_section :: "section_record option"
  r_score :: nat

definition searchSections ::
  "parser_state \<Rightarrow> string \<Rightarrow> jsnum \<Rightarrow> js_error + search_result list" where
  "searchSections p query limit =
     (case rankedSections p query limit of
        Inl e \<Rightarrow> Inl e
      | Inr ranked \<Rightarrow>
          (case parserData p of
             None \<Rightarrow>
               if ranked = [] then Inr [] else Inl (cannot_read ''null'' ''sections'')
           | Some d \<Rightarrow>
               Inr (map (\<lambda>(sectionId, score).
                      \<lparr>r_section = map_of (sections d) sectionId, r_score = score\<rparr>) ranked)))"

text \<open>The words in which the properties of the ranking are stated. \<open>index_list\<close> is the
  list of sections indexed under a keyword; \<open>matches\<close> counts the keywords of a query,
  one by one and repeats included, under which a section is indexed; \<open>encountered\<close> lists
  the matched sections in the order in which the loops meet them first; \<open>key_order\<close> is
  the order in which \<open>Object.entries\<close> lists such keys.\<close>

definition index_list :: "(string \<times> string list) list \<Rightarrow> string \<Rightarrow> string list" where
  "index_list index keyword = (case map_of index keyword of Some ids \<Rightarrow> ids | None \<Rightarrow> [])"

definition matches :: "(string \<times> string list) list \<Rightarrow> string list \<Rightarrow> string \<Rightarrow> nat" where
  "matches index keywords i =
     length (filter (\<lambda>keyword. i \<in> set (index_list index keyword)) keywords)"

definition encountered :: "(string \<times> string list) list \<Rightarrow> string list \<Rightarrow> string list" where
  "encountered index keywords = js_set (concat (map (index_list index) keywords))"

definition key_order :: "string list \<Rightarrow> string list" where
  "key_order ks =
     sort_key (\<lambda>k. case array_index k of Some n \<Rightarrow> n | None \<Rightarrow> 0)
       (filter (\<lambda>k. array_index k \<noteq> None) ks)
     @ filter (\<lambda>k. array_index k = None) ks"

text \<open>\<open>buildSearchIndex\<close> lists a section at most once under a keyword.\<close>

definition distinct_lists :: "(string \<times> string list) list \<Rightarrow> bool" where
  "distinct_lists index = list_all (\<lambda>(keyword, ids). distinct ids) index"

text \<open>The score table after the sequence \<open>seq\<close> of section ids has been counted in.\<close>

definition score_table :: "string list \<Rightarrow> (string \<times> nat) list" where
  "score_table seq = map (\<lambda>i. (i, count_list seq i)) (js_set seq)"

section \<open>The tool operations (llmService.js)\<close>

text \<open>
  The arguments of a tool call are whatever JSON the model sent. Where the code hands an
  argument of an undeclared type to a built-in conversion (\<open>ToNumber\<close> of a string, array
  or object inside \<open>Math.min\<close>; \<open>ToString\<close> of a non-string used as a property key or
  in a template literal), the conversion is a parameter of the model.
\<close>

record env =
  parser :: parser_state
  coerceNumber :: "jsval \<Rightarrow> jsnum"
  coerceString :: "jsval \<Rightarrow> string"

definition to_number :: "env \<Rightarrow> jsval \<Rightarrow> jsnum" where
  "to_number e v =
     (case v of
        JUndefined \<Rightarrow> NaN
      | JNull \<Rightarrow> Fin 0
      | JBool b \<Rightarrow> Fin (if b then 1 else 0)
      | JNum n \<Rightarrow> Fin n
      | _ \<Rightarrow> coerceNumber e v)"

definition to_string :: "env \<Rightarrow> jsval \<Rightarrow> string" where
  "to_string e v = (case v of JStr s \<Rightarrow> s | _ \<Rightarrow> coerceString e v)"

text \<open>A destructuring default (\<open>maxResults = 3\<close>) replaces \<open>undefined\<close> only.\<close>

definition or_default :: "jsval \<Rightarrow> jsval \<Rightarrow> jsval" where
  "or_default v d = (if v = JUndefined then d else v)"

text \<open>\<open>extractKeywords\<close> returns no keyword for an argument that is not a string, as it
  does for the empty string.\<close>

definition query_text :: "jsval \<Rightarrow> string" where
  "query_text v = (case v of JStr s \<Rightarrow> s | _ \<Rightarrow> [])"

definition join :: "string \<Rightarrow> string list \<Rightarrow> string" where
  "join sep xs = (case xs of [] \<Rightarrow> [] | x # rest \<Rightarrow> x @ concat (map (\<lambda>y. sep @ y) rest))"

fun try_map :: "('a \<Rightarrow> js_error + 'b) \<Rightarrow> 'a list \<Rightarrow> js_error + 'b list" where
  "try_map f [] = Inr []"
| "try_map f (x # xs) =
     (case f x of
        Inl e \<Rightarrow> Inl e
      | Inr y \<Rightarrow> (case try_map f xs of Inl e \<Rightarrow> Inl e | Inr ys \<Rightarrow> Inr (y # ys)))"

text \<open>One entry of \<open>results\<close>; \<open>result.section.id\<close> throws when the section is
  \<open>undefined\<close>.\<close>

definition result_entry :: "int \<Rightarrow> search_result \<Rightarrow> js_error + jsval" where
  "result_entry maxLength result =
     (case r_section result of
        None \<Rightarrow> Inl (cannot_read ''undefined'' ''id'')
      | Some section \<Rightarrow>
          Inr (JObj
            [(''id'', JStr (s_id section)),
             (''title'', JStr (title section)),
             (''content'', JStr (truncateText (fullText section) maxLength)),
             (''level'', JNum (int (level section))),
             (''type'', JStr (s_type section)),
             (''score'', JNum (int (r_score result))),
             (''excerpt'', JStr (truncateText (fullText section) 200))]))"

definition executeSearchSections :: "env \<Rightarrow> jsval \<Rightarrow> js_error + jsval" where
  "executeSearchSections e input =
     (case get_field input ''query'' of
        Inl err \<Rightarrow> Inl err
      | Inr query \<Rightarrow>
     (case get_field input ''maxResults'' of
        Inl err \<Rightarrow> Inl err
      | Inr m \<Rightarrow>
     (let maxResults = or_default m (JNum 3) in
      case getDocumentData (parser e) of
        Inl err \<Rightarrow> Inl err
      | Inr None \<Rightarrow> Inl (Error ''Document data not available'')
      | Inr (Some documentData) \<Rightarrow>
     (case searchSections (parser e) (query_text query)
             (math_min (to_number e maxResults) 3) of
        Inl err \<Rightarrow> Inl err
      | Inr searchResults \<Rightarrow>
     (case try_map (result_entry 300) searchResults of
        Inl err \<Rightarrow> Inl err
      | Inr results \<Rightarrow>
          Inr (JObj
            [(''query'', query),
             (''results'', JArr results),
             (''totalFound'', JNum (int (length searchResults)))]))))))"

definition executeGetSectionById :: "env \<Rightarrow> jsval \<Rightarrow> js_error + jsval" where
  "executeGetSectionById e input =
     (case get_field input ''sectionId'' of
        Inl err \<Rightarrow> Inl err
      | Inr sectionId \<Rightarrow>
     (case getDocumentData (parser e) of
        Inl err \<Rightarrow> Inl err
      | Inr None \<Rightarrow> Inl (Error ''Document data not available'')
      | Inr (Some documentData) \<Rightarrow>
     (case get_property (sections documentData) (to_string e sectionId) of
        Absent \<Rightarrow>
          Inl (Error (''Section with ID \"'' @ to_string e sectionId @ ''\" not found''))
      | Inherited \<Rightarrow>
          Inr (JObj
            [(''id'', JUndefined), (''title'', JUndefined), (''content'', JStr []),
             (''level'', JUndefined), (''type'', JUndefined), (''parent'', JUndefined),
             (''children'', JArr [])])
      | Own section \<Rightarrow>
          Inr (JObj
            [(''id'', JStr (s_id section)),
             (''title'', JStr (title section)),
             (''content'', JStr (truncateText (fullText section) 600)),
             (''level'', JNum (int (level section))),
             (''type'', JStr (s_type section)),
             (''parent'', JUndefined),
             (''children'', JArr (map JStr (children section)))]))))"

definition topicKeywords :: "(string \<times> string list) list" where
  "topicKeywords =
     [(''tax'', [''tax'', ''taxes'', ''taxation'', ''income'', ''deduction'', ''credit'',
                 ''revenue'', ''IRS'']),
      (''defense'', [''defense'', ''military'', ''armed forces'', ''national security'',
                     ''pentagon'', ''veteran'']),
      (''agriculture'', [''agriculture'', ''farm'', ''farming'', ''food'', ''SNAP'',
                         ''nutrition'', ''USDA'', ''crop'']),
      (''energy'', [''energy'', ''oil'', ''gas'', ''petroleum'', ''renewable'', ''solar'',
                    ''wind'', ''coal'']),
      (''environment'', [''environment'', ''climate'', ''EPA'', ''pollution'', ''emission'',
                         ''green'', ''conservation'']),
      (''banking'', [''banking'', ''finance'', ''financial'', ''bank'', ''credit'', ''loan'',
                     ''mortgage'']),
      (''healthcare'', [''health'', ''medical'', ''medicare'', ''medicaid'', ''hospital'',
                        ''insurance'', ''doctor'']),
      (''education'', [''education'', ''school'', ''student'', ''teacher'', ''university'',
                       ''college'', ''learning'']),
      (''immigration'', [''immigration'', ''immigrant'', ''border'', ''visa'', ''citizenship'',
                         ''deportation'']),
      (''housing'', [''housing'', ''home'', ''rent'', ''mortgage'', ''affordable housing'',
                     ''HUD''])]"

definition impactKeywords :: "(string \<times> string list) list" where
  "impactKeywords =
     [(''appropriation'', [''appropriation'', ''appropriated'', ''appropriates'',
                           ''funds available'']),
      (''funding'', [''funding'', ''funded'', ''fund'', ''allocated'', ''allocation'']),
      (''cost'', [''cost'', ''costs'', ''expense'', ''expenditure'', ''budget'']),
      (''budget'', [''budget'', ''budgeted'', ''budgetary'', ''fiscal'']),
      (''spending'', [''spending'', ''spend'', ''expenditure'', ''outlay'']),
      (''revenue'', [''revenue'', ''income'', ''receipts'', ''collections'']),
      (''tax_change'', [''tax increase'', ''tax decrease'', ''tax rate'', ''tax reform'',
                        ''tax credit'', ''tax deduction''])]"

text \<open>\<open>table[name.toLowerCase()] || [name]\<close>, for the argument \<open>name\<close> held in the variable
  \<open>field\<close>: \<open>toLowerCase\<close> exists on strings only; an unlisted name stands for itself; a
  name that reads an inherited member of the table yields a value without \<open>join\<close>.\<close>

definition expand_keywords ::
  "string \<Rightarrow> (string \<times> string list) list \<Rightarrow> jsval \<Rightarrow> js_error + string list" where
  "expand_keywords field table name =
     (case name of
        JStr s \<Rightarrow>
          (case get_property table (toLowerCase s) of
             Own keywords \<Rightarrow> Inr keywords
           | Absent \<Rightarrow> Inr [s]
           | Inherited \<Rightarrow> Inl (TypeError ''keywords.join is not a function''))
      | JUndefined \<Rightarrow> Inl (cannot_read ''undefined'' ''toLowerCase'')
      | JNull \<Rightarrow> Inl (cannot_read ''null'' ''toLowerCase'')
      | _ \<Rightarrow> Inl (TypeError (field @ ''.toLowerCase is not a function'')))"

text \<open>The body shared, word for word, by \<open>executeSearchByTopic\<close> and
  \<open>executeSearchFinancialImpact\<close>: the argument's name, the keyword table.\<close>

definition search_by_table ::
  "string \<Rightarrow> (string \<times> string list) list \<Rightarrow> env \<Rightarrow> jsval \<Rightarrow> js_error + jsval" where
  "search_by_table field table e input =
     (case get_field input field of
        Inl err \<Rightarrow> Inl err
      | Inr name \<Rightarrow>
     (case get_field input ''maxResults'' of
        Inl err \<Rightarrow> Inl err
      | Inr m \<Rightarrow>
     (let maxResults = or_default m (JNum 3) in
      case expand_keywords field table name of
        Inl err \<Rightarrow> Inl err
      | Inr keywords \<Rightarrow>
     (let searchQuery = join '' OR '' keywords in
      case searchSections (parser e) searchQuery (math_min (to_number e maxResults) 3) of
        Inl err \<Rightarrow> Inl err
      | Inr searchResults \<Rightarrow>
     (case try_map (result_entry 250) searchResults of
        Inl err \<Rightarrow> Inl err
      | Inr results \<Rightarrow>
          Inr (JObj
            [(field, name),
             (''searchKeywords'', JArr (map JStr keywords)),
             (''results'', JArr results),
             (''totalFound'', JNum (int (length searchResults)))]))))))"

definition executeSearchByTopic :: "env \<Rightarrow> jsval \<Rightarrow> js_error + jsval" where
  "executeSearchByTopic = search_by_table ''topic'' topicKeywords"

definition executeSearchFinancialImpact :: "env \<Rightarrow> jsval \<Rightarrow> js_error + jsval" where
  "executeSearchFinancialImpact = search_by_table ''impactType'' impactKeywords"

definition executeGetBillOverview :: "env \<Rightarrow> jsval \<Rightarrow> js_error + jsval" where
  "executeGetBillOverview e input =
     (case getDocumentData (parser e) of
        Inl err \<Rightarrow> Inl err
      | Inr None \<Rightarrow> Inl (Error ''Document data not available'')
      | Inr (Some documentData) \<Rightarrow>
          Inr (JObj
            [(''title'', JStr ''H.R. 1 (2025)''),
             (''totalSections'', JNum (int (length (sections documentData)))),
             (''structure'', JStr ''Structure not available''),
             (''mainTopics'', JArr (map JStr
                [''Agriculture and Food Policy'', ''Defense and National Security'',
                 ''Banking and Financial Services'', ''Energy and Natural Resources'',
                 ''Environmental Protection'', ''Tax Policy and Revenue''])),
             (''summary'', JStr (''H.R. 1 (2025) is a comprehensive legislative bill covering ''
                @ ''multiple policy areas including agriculture, defense, banking, energy, ''
                @ ''environment, and tax policy.''))]))"

section \<open>Executing the tool calls of a reply (llmService.js)\<close>

text \<open>The blocks of a message: text, a tool invocation request of the model, and
  the result that answers one. The \<open>content\<close> of a \<open>tool_result\<close> block is the text
  \<open>JSON.stringify(result)\<close>; the model keeps the value that is serialised.\<close>

datatype content_item =
    TextItem (item_text: string)
  | ToolUse (tool_id: string) (tool_name: string) (tool_input: jsval)
  | ToolResult (tool_use_id: string) (result_content: jsval)

fun is_tool_use :: "content_item \<Rightarrow> bool" where
  "is_tool_use (ToolUse i n a) = True"
| "is_tool_use item = False"

fun is_tool_result :: "content_item \<Rightarrow> bool" where
  "is_tool_result (ToolResult i c) = True"
| "is_tool_result item = False"

fun is_text :: "content_item \<Rightarrow> bool" where
  "is_text (TextItem t) = True"
| "is_text item = False"

record response =
  content :: "content_item list option"
  response_id :: jsval
  usage :: jsval

fun message :: "js_error \<Rightarrow> string" where
  "message (Error m) = m"
| "message (TypeError m) = m"

definition error_payload :: "string \<Rightarrow> jsval" where
  "error_payload m = JObj [(''error'', JStr m)]"

text \<open>The \<open>switch\<close> on the tool's name.\<close>

definition run_tool :: "env \<Rightarrow> string \<Rightarrow> jsval \<Rightarrow> js_error + jsval" where
  "run_tool e name input =
     (if name = ''search_sections'' then executeSearchSections e input
      else if name = ''get_section_by_id'' then executeGetSectionById e input
      else if name = ''search_by_topic'' then executeSearchByTopic e input
      else if name = ''get_bill_overview'' then executeGetBillOverview e input
      else if name = ''search_financial_impact'' then executeSearchFinancialImpact e input
      else Inr (error_payload (''Unknown tool: '' @ name)))"

text \<open>The body of the \<open>for\<close> loop: the \<open>try\<close> pushes the result, the \<open>catch\<close> pushes the
  error's message, both under the call's id.\<close>

definition result_for :: "env \<Rightarrow> content_item \<Rightarrow> content_item" where
  "result_for e toolCall =
     (case run_tool e (tool_name toolCall) (tool_input toolCall) of
        Inr result \<Rightarrow> ToolResult (tool_id toolCall) result
      | Inl err \<Rightarrow> ToolResult (tool_id toolCall) (error_payload (message err)))"

text \<open>\<open>executeToolCalls\<close>. After the loop, every id of a call that has no result gets
  the fallback result; the ids of the results are read once, before the fallbacks are
  pushed. \<open>response.content.filter\<close> throws when the reply has no content.\<close>

definition executeToolCalls :: "env \<Rightarrow> response \<Rightarrow> js_error + content_item list" where
  "executeToolCalls e resp =
     (case content resp of
        None \<Rightarrow> Inl (cannot_read ''undefined'' ''filter'')
      | Some items \<Rightarrow>
          (let toolCalls = filter is_tool_use items;
               toolResults = map (result_for e) toolCalls;
               toolUseIds = map tool_id toolCalls;
               toolResultIds = map tool_use_id toolResults
           in Inr (toolResults @
                map (\<lambda>toolUseId. ToolResult toolUseId (error_payload ''Tool execution failed''))
                  (filter (\<lambda>toolUseId. toolUseId \<notin> set toolResultIds) toolUseIds))))"

section \<open>The conversation loop (llmService.js)\<close>

datatype role = User | Assistant

text \<open>The content of a message is a string (the first prompt) or an array of blocks.\<close>

datatype message_content = Plain string | Blocks "content_item list"

record message_record =
  role :: role
  msg_content :: message_content

text \<open>The request body: the conversation and the tool definitions (by name). The model
  name, \<open>max_tokens\<close> and \<open>temperature\<close> never change and are left out.\<close>

record payload =
  messages :: "message_record list"
  tools :: "string list"

text \<open>\<open>axios.post(baseUrl, payload, config)\<close> stands for the external model: the reply's
  \<open>data\<close>, or the error the call rejects with. The requests sent are logged in the state,
  in order.\<close>

type_synonym post = "payload \<Rightarrow> js_error + response"

record loop_state =
  currentResponse :: response
  conversationHistory :: "message_record list"
  iterationCount :: nat
  requests :: "payload list"

definition has_tool_use :: "response \<Rightarrow> bool" where
  "has_tool_use resp =
     (case content resp of None \<Rightarrow> False | Some items \<Rightarrow> list_ex is_tool_use items)"

definition response_blocks :: "response \<Rightarrow> content_item list" where
  "response_blocks resp = (case content resp of None \<Rightarrow> [] | Some items \<Rightarrow> items)"

definition maxIterations :: nat where
  "maxIterations = 3"

definition forcedFinalText :: string where
  "forcedFinalText =
     ''Based on all the information gathered from the tools above, please provide your ''
     @ ''final JSON response using this exact format: {\"answer\": \"comprehensive answer\", ''
     @ ''\"sections\": [\"relevant section IDs\"], \"keyPoints\": [\"key takeaways\"], ''
     @ ''\"implications\": \"what this means\", \"confidence\": \"high/medium/low\"}''"

text \<open>The turn that asks for the final answer.\<close>

definition forced_turn :: message_record where
  "forced_turn = \<lparr>role = User, msg_content = Blocks [TextItem forcedFinalText]\<rparr>"

text \<open>The \<open>while\<close> loop of \<open>handleToolCallsRecursively\<close>, with the bound as a
  parameter. The block that validates the pairing only writes to the log.\<close>

function tool_loop ::
  "env \<Rightarrow> post \<Rightarrow> payload \<Rightarrow> nat \<Rightarrow> loop_state \<Rightarrow> js_error + loop_state" where
  "tool_loop e post originalPayload bound st =
     (if has_tool_use (currentResponse st) \<and> iterationCount st < bound then
        (case executeToolCalls e (currentResponse st) of
           Inl err \<Rightarrow> Inl err
         | Inr toolResults \<Rightarrow>
             (let history = conversationHistory st @
                    [\<lparr>role = Assistant,
                      msg_content = Blocks (response_blocks (currentResponse st))\<rparr>,
                     \<lparr>role = User, msg_content = Blocks toolResults\<rparr>];
                  nextPayload = originalPayload\<lparr>messages := history\<rparr>
              in case post nextPayload of
                   Inl err \<Rightarrow> Inl err
                 | Inr nextResponse \<Rightarrow>
                     tool_loop e post originalPayload bound
                       \<lparr>currentResponse = nextResponse,
                        conversationHistory = history,
                        iterationCount = iterationCount st + 1,
                        requests = requests st @ [nextPayload]\<rparr>))
      else Inr st)"
  by pat_completeness auto
termination
  by (relation "measure (\<lambda>(e, post, originalPayload, bound, st). bound - iterationCount st)")
    auto

declare tool_loop.simps [simp del]

text \<open>\<open>handleToolCallsRecursively\<close> for a given bound: the loop, then, when the bound is
  reached with tool calls pending, their execution and the forced final request. It
  returns the final reply together with the requests it has sent.\<close>

definition handleToolCallsBounded ::
  "nat \<Rightarrow> env \<Rightarrow> post \<Rightarrow> response \<Rightarrow> payload \<Rightarrow> js_error + response \<times> payload list" where
  "handleToolCallsBounded bound e post resp originalPayload =
     (case tool_loop e post originalPayload bound
             \<lparr>currentResponse = resp,
              conversationHistory = messages originalPayload,
              iterationCount = 0,
              requests = []\<rparr> of
        Inl err \<Rightarrow> Inl err
      | Inr st \<Rightarrow>
          if iterationCount st \<ge> bound \<and> has_tool_use (currentResponse st) then
            (case executeToolCalls e (currentResponse st) of
               Inl err \<Rightarrow> Inl err
             | Inr finalToolResults \<Rightarrow>
                 (let history = conversationHistory st @
                        [\<lparr>role = Assistant,
                          msg_content = Blocks (response_blocks (currentResponse st))\<rparr>,
                         \<lparr>role = User, msg_content = Blocks finalToolResults\<rparr>,
                         forced_turn];
                      finalPayload = originalPayload\<lparr>messages := history\<rparr>
                  in case post finalPayload of
                       Inl err \<Rightarrow> Inl err
                     | Inr finalResponse \<Rightarrow>
                         Inr (finalResponse, requests st @ [finalPayload])))
          else Inr (currentResponse st, requests st))"

text \<open>The source fixes the bound: \<open>const maxIterations = 3\<close>.\<close>

definition handleToolCallsRecursively ::
  "env \<Rightarrow> post \<Rightarrow> response \<Rightarrow> payload \<Rightarrow> js_error + response \<times> payload list" where
  "handleToolCallsRecursively = handleToolCallsBounded maxIterations"

text \<open>A turn that carries tool results, and the ids on both sides of a pairing.\<close>

definition tool_result_turn :: "message_record \<Rightarrow> bool" where
  "tool_result_turn m =
     (role m = User \<and>
      (case msg_content m of
         Plain s \<Rightarrow> False
       | Blocks items \<Rightarrow> list_ex is_tool_result items))"

text \<open>The number of tool-executing rounds recorded in a conversation.\<close>

definition rounds :: "message_record list \<Rightarrow> nat" where
  "rounds history = length (filter tool_result_turn history)"

definition requested_ids :: "message_record \<Rightarrow> string list" where
  "requested_ids m =
     (case msg_content m of
        Plain s \<Rightarrow> []
      | Blocks items \<Rightarrow> map tool_id (filter is_tool_use items))"

definition answered_ids :: "message_record \<Rightarrow> string list" where
  "answered_ids m =
     (case msg_content m of
        Plain s \<Rightarrow> []
      | Blocks items \<Rightarrow> map tool_use_id (filter is_tool_result items))"

text \<open>The pairing invariant of a conversation: every assistant turn is followed at once
  by a user turn whose tool results carry, in order, exactly the ids of the tool
  invocations of that assistant turn.\<close>

fun paired :: "message_record list \<Rightarrow> bool" where
  "paired [] = True"
| "paired [m] = (role m \<noteq> Assistant)"
| "paired (m # n # ms) =
     (if role m = Assistant
      then role n = User \<and> answered_ids n = requested_ids m \<and> paired ms
      else paired (n # ms))"


section \<open>Parsing the final reply (llmService.js)\<close>

text \<open>\<open>content.match(/\{[\s\S]*\}/)\<close>: from the first opening brace to the last closing
  brace, when a closing brace follows the first opening one.\<close>

definition brace_block :: "string \<Rightarrow> string option" where
  "brace_block s =
     (let from_open = dropWhile (\<lambda>c. c \<noteq> CHR ''{'') s
      in if CHR ''}'' \<in> set from_open
         then Some (rev (dropWhile (\<lambda>c. c \<noteq> CHR ''}'') (rev from_open)))
         else None)"

text \<open>\<open>s.split(sep)\<close> for a one-character separator.\<close>

function split_on :: "char \<Rightarrow> string \<Rightarrow> string list" where
  "split_on sep s =
     (case dropWhile (\<lambda>c. c \<noteq> sep) s of
        [] \<Rightarrow> [s]
      | _ # rest \<Rightarrow> takeWhile (\<lambda>c. c \<noteq> sep) s # split_on sep rest)"
  by pat_completeness auto
termination
proof (relation "measure (\<lambda>(sep, s). length s)")
  show "wf (measure (\<lambda>(sep, s). length s))" by simp
next
  fix sep :: char and s :: string and x rest
  assume "dropWhile (\<lambda>c. c \<noteq> sep) s = x # rest"
  then have "length rest < length s"
    by (metis length_dropWhile_le length_Cons less_Suc_eq_le not_less)
  then show "((sep, rest), (sep, s)) \<in> measure (\<lambda>(sep, s). length s)" by simp
qed

declare split_on.simps [simp del]

text \<open>\<open>line.match(/^[\-\*\d\.]\s/)\<close>: a dash, a star, a digit or a dot, then one white
  space character, at the start of the line.\<close>

definition list_marker :: "string \<Rightarrow> bool" where
  "list_marker line =
     (case line of
        c # d # rest \<Rightarrow> (c \<in> set ''-*.'' \<or> is_digit c) \<and> is_space d
      | _ \<Rightarrow> False)"

text \<open>The structure built in the \<open>catch\<close> of \<open>JSON.parse\<close>.\<close>

definition fallback_structure :: "string \<Rightarrow> (string \<times> jsval) list" where
  "fallback_structure content' =
     (let lines = filter (\<lambda>line. trim line \<noteq> []) (split_on CHR 0x0A content');
          bulletPoints = filter list_marker lines;
          keyPoints = (if length bulletPoints > 0
                       then map (\<lambda>point. trim (drop 2 point)) bulletPoints else []);
          answer = (if length bulletPoints > 0
                    then join [CHR 0x0A, CHR 0x0A] (filter (\<lambda>line. \<not> list_marker line) lines)
                    else content')
      in [(''answer'', JStr (if trim answer \<noteq> [] then trim answer else content')),
          (''sections'', JArr []),
          (''keyPoints'', JArr (map JStr (take 5 keyPoints))),
          (''implications'', JStr ''Based on the analysis provided above.''),
          (''confidence'', JStr ''medium'')])"

text \<open>The parsed value as a property list. \<open>null\<close> has no properties to read; a number,
  boolean or string has none of these five and, the class body being strict code, refuses
  the assignment that back-fills one; an array has its elements under the decimal indices
  and accepts further properties.\<close>

function decimal_string :: "nat \<Rightarrow> string" where
  "decimal_string n =
     (if n < 10 then [char_of (48 + n)]
      else decimal_string (n div 10) @ [char_of (48 + n mod 10)])"
  by pat_completeness auto
termination
  by (relation "measure id") auto

declare decimal_string.simps [simp del]

definition properties :: "jsval \<Rightarrow> js_error + (string \<times> jsval) list" where
  "properties v =
     (case v of
        JObj kvs \<Rightarrow> Inr kvs
      | JArr xs \<Rightarrow> Inr (zip (map decimal_string [0 ..< length xs]) xs)
      | JUndefined \<Rightarrow> Inl (cannot_read ''undefined'' ''answer'')
      | JNull \<Rightarrow> Inl (cannot_read ''null'' ''answer'')
      | _ \<Rightarrow> Inl (TypeError ''Cannot create property on a primitive value''))"

definition field :: "(string \<times> jsval) list \<Rightarrow> string \<Rightarrow> jsval" where
  "field obj k = (case map_of obj k of Some v \<Rightarrow> v | None \<Rightarrow> JUndefined)"

definition back_fill :: "(string \<times> jsval) list \<Rightarrow> string \<Rightarrow> jsval \<Rightarrow> (string \<times> jsval) list" where
  "back_fill obj k v = (if \<not> truthy (field obj k) then obj_set obj k v else obj)"

definition requiredFields :: "string list" where
  "requiredFields = [''answer'', ''sections'', ''keyPoints'', ''implications'']"

text \<open>\<open>parseResponse\<close>. \<open>JSON.parse\<close> is the language's and is a parameter (\<open>None\<close> when it
  throws), as are the model name and the time stamp that go into \<open>metadata\<close>. Every error
  raised inside is replaced by the one error of the outer \<open>catch\<close>.\<close>

definition parseResponse ::
  "(string \<Rightarrow> jsval option) \<Rightarrow> string \<Rightarrow> string \<Rightarrow> response \<Rightarrow>
   js_error + (string \<times> jsval) list" where
  "parseResponse jsonParse model now resp =
     (let failed = Inl (Error ''Failed to parse Claude response'') in
      case content resp of
        None \<Rightarrow> failed
      | Some items \<Rightarrow>
          if length items = 0 then failed
          else
            (case filter is_text items of
               [] \<Rightarrow> failed
             | textContent # others \<Rightarrow>
                 (let content' = item_text textContent;
                      parsedContent =
                        (case jsonParse (case brace_block content' of
                                           Some jsonMatch \<Rightarrow> jsonMatch
                                         | None \<Rightarrow> content') of
                           Some v \<Rightarrow> v
                         | None \<Rightarrow> JObj (fallback_structure content'))
                  in case properties parsedContent of
                       Inl err \<Rightarrow> failed
                     | Inr obj \<Rightarrow>
                         (let missingFields =
                                filter (\<lambda>f. \<not> truthy (field obj f)) requiredFields;
                              filled =
                                (if length missingFields > 0 then
                                   back_fill
                                     (back_fill
                                        (back_fill
                                           (back_fill
                                              (back_fill obj ''answer'' (JStr content'))
                                              ''sections'' (JArr []))
                                           ''keyPoints'' (JArr []))
                                        ''implications''
                                        (JStr ''See full response for implications''))
                                     ''confidence'' (JStr ''medium'')
                                 else obj)
                          in Inr (obj_set filled ''metadata''
                                (JObj [(''model'', JStr model),
                                       (''requestId'', response_id resp),
                                       (''usage'', usage resp),
                                       (''timestamp'', JStr now)]))))))"

section \<open>Validating a query (queryProcessor.js)\<close>

record validation =
  valid :: bool
  errors :: "string list"

text \<open>\<open>validateQuery\<close> receives \<open>req.body.query\<close>, any JSON value or \<open>undefined\<close>. The
  third test calls \<open>query.trim()\<close> on every truthy value, and only a string has that
  method.\<close>

definition validateQuery :: "jsval \<Rightarrow> js_error + validation" where
  "validateQuery query =
     (let errors1 = (if \<not> truthy query then [''Query is required''] else []);
          errors2 = errors1 @
            (case query of JStr s \<Rightarrow> [] | _ \<Rightarrow> [''Query must be a string''])
      in if \<not> truthy query then Inr \<lparr>valid = (length errors2 = 0), errors = errors2\<rparr>
         else
           (case query of
              JStr s \<Rightarrow>
                (let errors3 = errors2 @
                       (if length (trim s) = 0 then [''Query cannot be empty''] else []);
                     errors4 = errors3 @
                       (if length s > 1000
                        then [''Query is too long (maximum 1000 characters)''] else [])
                 in Inr \<lparr>valid = (length errors4 = 0), errors = errors4\<rparr>)
            | _ \<Rightarrow> Inl (TypeError ''query.trim is not a function'')))"

section \<open>Indexing the parsed document (documentParser.js)\<close>

text \<open>
  The tree that \<open>xml2js\<close> hands over (\<open>explicitArray\<close>, no \<open>mergeAttrs\<close>): an element
  without attributes and without child elements is its text, a string; any other element
  is an object with its text, if any, under \<open>_\<close>, its attributes under \<open>$\<close>, and under every
  child tag the array of the children with that tag, in document order; the keys stand in
  this order.
\<close>

datatype xnode =
    XString string
  | XElement (attributes: "(string \<times> string) list") (chars: "string option")
      (child_groups: "(string \<times> xnode list) list")

text \<open>\<open>obj.$ && obj.$.id\<close>: the \<open>id\<close> attribute when it is there and not empty.\<close>

fun node_id :: "xnode \<Rightarrow> string option" where
  "node_id (XString s) = None"
| "node_id (XElement attrs c groups) =
     (case map_of attrs ''id'' of
        Some i \<Rightarrow> if i \<noteq> [] then Some i else None
      | None \<Rightarrow> None)"

text \<open>\<open>obj.$[name] || fallback\<close>.\<close>

definition attribute_or :: "(string \<times> string) list \<Rightarrow> string \<Rightarrow> string \<Rightarrow> string" where
  "attribute_or attrs name fallback =
     (case map_of attrs name of
        Some v \<Rightarrow> if v \<noteq> [] then v else fallback
      | None \<Rightarrow> fallback)"

fun extractTextContent :: "xnode \<Rightarrow> string" where
  "extractTextContent (XString s) = s"
| "extractTextContent (XElement attrs c groups) =
     (case c of Some t \<Rightarrow> if t \<noteq> [] then t else [] | None \<Rightarrow> [])"

text \<open>\<open>extractAllTextRecursive\<close>: the element's own text (once for \<open>obj._\<close> and once
  more when the loop over the entries meets the key \<open>_\<close>), then the text of every child of
  every group, each followed by a space.\<close>

fun extractAllTextRecursive :: "xnode \<Rightarrow> string"
  and group_text :: "xnode list \<Rightarrow> string"
  and groups_text :: "(string \<times> xnode list) list \<Rightarrow> string" where
  "extractAllTextRecursive (XString s) = s"
| "extractAllTextRecursive (XElement attrs c groups) =
     (case c of Some t \<Rightarrow> if t \<noteq> [] then t @ '' '' else [] | None \<Rightarrow> [])
     @ (case c of Some t \<Rightarrow> t @ '' '' | None \<Rightarrow> [])
     @ groups_text groups"
| "group_text [] = []"
| "group_text (item # items) = extractAllTextRecursive item @ '' '' @ group_text items"
| "groups_text [] = []"
| "groups_text ((tag, items) # groups) = group_text items @ groups_text groups"

text \<open>The heading of a section: the first \<open>header\<close> child, or else the first \<open>enum\<close>
  child, when that child is not the empty string.\<close>

definition first_child :: "(string \<times> xnode list) list \<Rightarrow> string \<Rightarrow> xnode option" where
  "first_child groups tag =
     (case map_of groups tag of
        Some (XString s # items) \<Rightarrow> if s \<noteq> [] then Some (XString s) else None
      | Some (item # items) \<Rightarrow> Some item
      | _ \<Rightarrow> None)"

definition heading_text :: "xnode \<Rightarrow> string" where
  "heading_text item =
     (case item of
        XString s \<Rightarrow> s
      | XElement attrs c groups \<Rightarrow> (case c of Some t \<Rightarrow> t | None \<Rightarrow> []))"

text \<open>\<open>extractSectionDataSimple\<close>. It returns \<open>null\<close> for a node without an id; nothing
  in its \<open>try\<close> block throws on a tree of this shape.\<close>

fun extractSectionDataSimple :: "xnode \<Rightarrow> string option \<Rightarrow> nat \<Rightarrow> section_record option" where
  "extractSectionDataSimple (XString s) parentId' level' = None"
| "extractSectionDataSimple (XElement attrs c groups) parentId' level' =
     (case node_id (XElement attrs c groups) of
        None \<Rightarrow> None
      | Some i \<Rightarrow>
          (let title' =
                 (case first_child groups ''header'' of
                    Some h \<Rightarrow> heading_text h
                  | None \<Rightarrow>
                      (case first_child groups ''enum'' of
                         Some n \<Rightarrow> heading_text n
                       | None \<Rightarrow> []));
               content' =
                 (case map_of groups ''text'' of
                    Some items \<Rightarrow> join '' '' (map extractTextContent items)
                  | None \<Rightarrow> []);
               allText = extractAllTextRecursive (XElement attrs c groups)
           in Some \<lparr>s_id = i,
                    s_type = attribute_or attrs ''section-type'' ''section'',
                    title = trim (stripTags title'),
                    s_content = trim (stripTags content'),
                    fullText = trim (stripTags allText),
                    level = level',
                    parentId = parentId',
                    children = []\<rparr>))"

text \<open>The first block of \<open>processSectionsSimple\<close>: a node with an id is stored under
  it, unless \<open>extractSectionDataSimple\<close> returned \<open>null\<close>. For the id \<open>__proto__\<close> the
  assignment \<open>sections[section.id] = section\<close> adds no key to the map: it makes the
  section the prototype of the map.\<close>

definition store_node ::
  "xnode \<Rightarrow> (string \<times> section_record) list \<Rightarrow> string option \<Rightarrow> nat \<Rightarrow>
   (string \<times> section_record) list" where
  "store_node obj sections' parentId' level' =
     (case node_id obj of
        None \<Rightarrow> sections'
      | Some i \<Rightarrow>
          (case extractSectionDataSimple obj parentId' level' of
             Some section \<Rightarrow>
               if s_id section = ''__proto__'' then sections'
               else obj_set sections' (s_id section) section
           | None \<Rightarrow> sections'))"

text \<open>\<open>processSectionsSimple\<close>. The children are visited group by group: a child with
  an id of its own is visited with this node's id (or, when this node has none, the
  parent id received) one level down; a child without one is visited with the parent id
  and the level received. The entries \<open>$\<close> and \<open>_\<close> hold no node with an id and change
  nothing.\<close>

function (sequential) processSectionsSimple ::
    "xnode \<Rightarrow> (string \<times> section_record) list \<Rightarrow> string option \<Rightarrow> nat \<Rightarrow>
     (string \<times> section_record) list"
  and process_items ::
    "xnode list \<Rightarrow> string option \<Rightarrow> (string \<times> section_record) list \<Rightarrow> string option \<Rightarrow> nat \<Rightarrow>
     (string \<times> section_record) list"
  and process_groups ::
    "(string \<times> xnode list) list \<Rightarrow> string option \<Rightarrow> (string \<times> section_record) list \<Rightarrow>
     string option \<Rightarrow> nat \<Rightarrow> (string \<times> section_record) list" where
  "processSectionsSimple (XString s) sections' parentId' level' = sections'"
| "processSectionsSimple (XElement attrs c groups) sections' parentId' level' =
     process_groups groups (node_id (XElement attrs c groups))
       (store_node (XElement attrs c groups) sections' parentId' level') parentId' level'"
| "process_items [] own sections' parentId' level' = sections'"
| "process_items (item # items) own sections' parentId' level' =
     process_items items own
       (if node_id item \<noteq> None
        then processSectionsSimple item sections'
               (case own of Some i \<Rightarrow> Some i | None \<Rightarrow> parentId') (level' + 1)
        else processSectionsSimple item sections' parentId' level')
       parentId' level'"
| "process_groups [] own sections' parentId' level' = sections'"
| "process_groups ((tag, items) # groups) own sections' parentId' level' =
     process_groups groups own (process_items items own sections' parentId' level')
       parentId' level'"
  by pat_completeness auto
termination
  by (relation "measure (\<lambda>x. case x of
         Inl (n, s, p, l) \<Rightarrow> size n
       | Inr (Inl (items, own, s, p, l)) \<Rightarrow> size_list size items
       | Inr (Inr (groups, own, s, p, l)) \<Rightarrow>
           size_list (size_prod (\<lambda>t. 0) (size_list size)) groups)")
    auto

text \<open>The section map of \<open>buildDocumentStructure\<close>: \<open>processSectionsSimple\<close> from the
  root, with an empty map, no parent and level 0.\<close>

definition build_sections :: "xnode \<Rightarrow> (string \<times> section_record) list" where
  "build_sections parsedXml = processSectionsSimple parsedXml [] None 0"

text \<open>The invariant of the section map: the parent of every section is \<open>null\<close> or a key
  of the map.\<close>

definition parent_known :: "(string \<times> section_record) list \<Rightarrow> string option \<Rightarrow> bool" where
  "parent_known sections' p = (case p of None \<Rightarrow> True | Some i \<Rightarrow> i \<in> fst ` set sections')"

definition parents_present :: "(string \<times> section_record) list \<Rightarrow> bool" where
  "parents_present sections' =
     list_all (\<lambda>(k, section). parent_known sections' (parentId section)) sections'"

text \<open>The same with one exception: a parent whose id is \<open>__proto__\<close>.\<close>

definition parent_recorded :: "(string \<times> section_record) list \<Rightarrow> string option \<Rightarrow> bool" where
  "parent_recorded sections' p = (p = Some ''__proto__'' \<or> parent_known sections' p)"

definition parents_recorded :: "(string \<times> section_record) list \<Rightarrow> bool" where
  "parents_recorded sections' =
     list_all (\<lambda>(k, section). parent_recorded sections' (parentId section)) sections'"

text \<open>An index that lists sections of the map only, as \<open>buildSearchIndex\<close> makes it.\<close>

definition index_within :: "documentData \<Rightarrow> bool" where
  "index_within d =
     list_all (\<lambda>(keyword, ids). list_all (\<lambda>i. i \<in> fst ` set (sections d)) ids)
       (searchIndex d)"

text \<open>\<open>buildSearchIndex\<close>: for every section, in the order of \<open>Object.entries\<close>, each
  keyword of its title and of its full text lists the section's id once. A keyword that
  names an inherited member of the empty index object finds that member instead of a
  list, and the call of \<open>includes\<close> on it throws.\<close>

fun index_keywords ::
  "(string \<times> string list) list \<Rightarrow> string \<Rightarrow> string list \<Rightarrow> js_error + (string \<times> string list) list"
  where
  "index_keywords index sectionId [] = Inr index"
| "index_keywords index sectionId (keyword # keywords) =
     (case get_property index keyword of
        Absent \<Rightarrow> index_keywords (obj_set index keyword [sectionId]) sectionId keywords
      | Own ids \<Rightarrow>
          index_keywords
            (if sectionId \<in> set ids then index else obj_set index keyword (ids @ [sectionId]))
            sectionId keywords
      | Inherited \<Rightarrow> Inl (TypeError ''searchIndex[keyword].includes is not a function''))"

fun index_sections ::
  "(string \<times> string list) list \<Rightarrow> (string \<times> section_record) list \<Rightarrow>
   js_error + (string \<times> string list) list" where
  "index_sections index [] = Inr index"
| "index_sections index ((sectionId, section) # entries) =
     (case index_keywords index sectionId
             (extractKeywords (title section) @ extractKeywords (fullText section)) of
        Inl err \<Rightarrow> Inl err
      | Inr index' \<Rightarrow> index_sections index' entries)"

definition buildSearchIndex ::
  "(string \<times> section_record) list \<Rightarrow> js_error + (string \<times> string list) list" where
  "buildSearchIndex sections' = index_sections [] (object_entries sections')"

text \<open>\<open>buildDocumentStructure\<close>, as far as the sections and the index go.\<close>

definition buildDocumentStructure :: "xnode \<Rightarrow> js_error + documentData" where
  "buildDocumentStructure parsedXml =
     (let sections' = build_sections parsedXml
      in case buildSearchIndex sections' of
           Inl err \<Rightarrow> Inl err
         | Inr index \<Rightarrow> Inr \<lparr>sections = sections', searchIndex = index\<rparr>)"

section \<open>A small bill\<close>

text \<open>A document of five sections, the snapshot built from it, and a service around it;
  the examples below run on these.\<close>

definition example_node :: "string \<Rightarrow> string \<Rightarrow> xnode list \<Rightarrow> xnode" where
  "example_node i heading subsections =
     XElement [(''id'', i)] None [(''header'', [XString heading]), (''subsection'', subsections)]"

definition example_document :: xnode where
  "example_document =
     XElement [] None
       [(''section'',
         [example_node ''A'' ''farm subsidy budget''
            [example_node ''A1'' ''crop insurance budget'' []],
          example_node ''B'' ''defense spending budget'' [],
          example_node ''C'' ''tax credit budget'' [],
          example_node ''D'' ''energy budget'' []])]"

text \<open>A document in which a section with the id \<open>__proto__\<close> holds a subsection.\<close>

definition proto_document :: xnode where
  "proto_document =
     XElement [] None
       [(''section'',
         [XElement [(''id'', ''__proto__'')] None
            [(''header'', [XString ''general provisions'']),
             (''subsection'',
              [XElement [(''id'', ''B'')] None
                 [(''header'', [XString ''defense spending budget''])]])]])]"

definition example_section :: "string \<Rightarrow> string \<Rightarrow> string \<Rightarrow> nat \<Rightarrow> string option \<Rightarrow> section_record"
  where
  "example_section i heading full l p =
     \<lparr>s_id = i, s_type = ''section'', title = heading, s_content = [], fullText = full,
      level = l, parentId = p, children = []\<rparr>"

definition example_snapshot :: documentData where
  "example_snapshot =
     \<lparr>sections =
        [(''A'', example_section ''A'' ''farm subsidy budget''
                   ''farm subsidy budget crop insurance budget'' 1 None),
         (''A1'', example_section ''A1'' ''crop insurance budget'' ''crop insurance budget'' 2
                    (Some ''A'')),
         (''B'', example_section ''B'' ''defense spending budget'' ''defense spending budget'' 1
                   None),
         (''C'', example_section ''C'' ''tax credit budget'' ''tax credit budget'' 1 None),
         (''D'', example_section ''D'' ''energy budget'' ''energy budget'' 1 None)],
      searchIndex =
        [(''farm'', [''A'']), (''subsidy'', [''A'']),
         (''budget'', [''A'', ''A1'', ''B'', ''C'', ''D'']),
         (''crop'', [''A'', ''A1'']), (''insurance'', [''A'', ''A1'']),
         (''defense'', [''B'']), (''spending'', [''B'']),
         (''tax'', [''C'']), (''credit'', [''C'']), (''energy'', [''D''])]\<rparr>"

definition example_parser :: parser_state where
  "example_parser = \<lparr>parserData = Some example_snapshot, isInitialized = True\<rparr>"

definition example_env :: env where
  "example_env =
     \<lparr>parser = example_parser, coerceNumber = (\<lambda>v. NaN),
      coerceString = (\<lambda>v. ''[object Object]'')\<rparr>"

definition reply :: "content_item list \<Rightarrow> response" where
  "reply items = \<lparr>content = Some items, response_id = JStr ''msg'', usage = JNull\<rparr>"

definition example_payload :: payload where
  "example_payload =
     \<lparr>messages = [\<lparr>role = User, msg_content = Plain ''What changes for farms?''\<rparr>],
      tools = [''search_sections'', ''get_section_by_id'', ''search_by_topic'',
               ''get_bill_overview'', ''search_financial_impact'']\<rparr>"

text \<open>A scripted model that asks for one tool in every reply.\<close>

definition always_tool :: response where
  "always_tool = reply [ToolUse ''call'' ''search_by_topic'' (JObj [(''topic'', JStr ''tax'')])]"


text \<open>A final reply whose JSON payload has every required field and no \<open>confidence\<close>,
  and what \<open>JSON.parse\<close> makes of that payload.\<close>

definition example_payload_text :: string where
  "example_payload_text =
     ''{\"answer\":\"x\",\"sections\":[\"S1\"],\"keyPoints\":[\"p1\"],\"implications\":\"i\"}''"

definition example_parse :: "string \<Rightarrow> jsval option" where
  "example_parse s =
     (if s = example_payload_text
      then Some (JObj [(''answer'', JStr ''x''), (''sections'', JArr [JStr ''S1'']),
                       (''keyPoints'', JArr [JStr ''p1'']), (''implications'', JStr ''i'')])
      else None)"

text \<open>The number of entries under \<open>results\<close> in what a tool operation returns.\<close>

definition result_count :: "js_error + jsval \<Rightarrow> nat option" where
  "result_count outcome =
     (case outcome of
        Inr (JObj kvs) \<Rightarrow>
          (case map_of kvs ''results'' of Some (JArr rs) \<Rightarrow> Some (length rs) | _ \<Rightarrow> None)
      | _ \<Rightarrow> None)"

section \<open>Verified properties\<close>

subsection \<open>Helper facts\<close>

lemma length_js_set: "length (js_set xs) = card (set xs)"
  by (simp add: js_set_def length_remdups_card_conv)

lemma set_js_set: "set (js_set xs) = set xs"
  by (simp add: js_set_def)

lemma js_set_Nil: "(js_set xs = []) = (xs = [])"
  by (simp add: js_set_def)

text \<open>The snapshot of the small bill is the one that indexing builds from its
  document.\<close>

lemma example_snapshot_built: "buildDocumentStructure example_document = Inr example_snapshot"
  by code_simp

lemma extractKeywords_empty: "extractKeywords [] = []"
  by (simp add: extractKeywords_def)

lemma calculateSimilarity_jaccard:
  "calculateSimilarity a b =
     (if extractKeywords a = [] \<or> extractKeywords b = [] then 0
      else of_nat (card (set (extractKeywords a) \<inter> set (extractKeywords b))) /
           of_nat (card (set (extractKeywords a) \<union> set (extractKeywords b))))"
proof -
  have inter: "{x \<in> set (extractKeywords a). x \<in> set (extractKeywords b)} =
      set (extractKeywords a) \<inter> set (extractKeywords b)"
    by auto
  show ?thesis
  proof (cases "a = [] \<or> b = []")
    case True
    then show ?thesis
      using extractKeywords_empty by (auto simp: calculateSimilarity_def)
  next
    case False
    then show ?thesis
      by (simp add: calculateSimilarity_def Let_def length_js_set set_js_set inter js_set_Nil
          del: of_nat_eq_0_iff)
  qed
qed

subsection \<open>The tokenizer\<close>

text \<open>
  C8. Whatever the input text, every token that \<open>extractKeywords\<close> returns is longer than
  two characters, is not one of the stop words, and is not made of digits only.
\<close>

theorem extractKeywords_tokens_filtered:
  "\<forall>w \<in> set (extractKeywords t).
     2 < length w \<and> w \<notin> set stopWords \<and> \<not> pure_number w"
  by (auto simp: extractKeywords_def)

theorem extractKeywords_tokens_filtered_witness:
  "extractKeywords ''The 2024 Tax credit of 100 is   good'' = [''tax'', ''credit'', ''good''] \<and>
   list_all (\<lambda>w. 2 < length w \<and> w \<notin> set stopWords \<and> \<not> pure_number w)
     (extractKeywords ''The 2024 Tax credit of 100 is   good'')"
proof -
  have run: "extractKeywords ''The 2024 Tax credit of 100 is   good'' =
      [''tax'', ''credit'', ''good'']"
    by code_simp
  have filtered: "list_all (\<lambda>w. 2 < length w \<and> w \<notin> set stopWords \<and> \<not> pure_number w)
      (extractKeywords ''The 2024 Tax credit of 100 is   good'')"
    using extractKeywords_tokens_filtered [of "''The 2024 Tax credit of 100 is   good''"]
    by (simp only: list_all_iff)
  show ?thesis
    by (rule conjI [OF run filtered])
qed

subsection \<open>Similarity\<close>

text \<open>
  C9. \<open>calculateSimilarity\<close> is the Jaccard index of the two token sets: the size of
  their intersection over the size of their union when both are non-empty. A text with at
  least one token has similarity 1 with itself, the function is symmetric, and the result
  is 0 as soon as one of the texts has no token.
\<close>

theorem calculateSimilarity_is_jaccard:
  "(extractKeywords a \<noteq> [] \<and> extractKeywords b \<noteq> [] \<longrightarrow>
      calculateSimilarity a b =
        of_nat (card (set (extractKeywords a) \<inter> set (extractKeywords b))) /
        of_nat (card (set (extractKeywords a) \<union> set (extractKeywords b)))) \<and>
   (extractKeywords t \<noteq> [] \<longrightarrow> calculateSimilarity t t = 1) \<and>
   calculateSimilarity a b = calculateSimilarity b a \<and>
   (extractKeywords a = [] \<or> extractKeywords b = [] \<longrightarrow> calculateSimilarity a b = 0)"
  by (auto simp: calculateSimilarity_jaccard Int_commute Un_commute card_eq_0_iff)

theorem calculateSimilarity_is_jaccard_witness:
  "extractKeywords ''farm subsidy program'' \<noteq> [] \<and>
   extractKeywords ''farm program budget'' \<noteq> [] \<and>
   extractKeywords ''the of 42'' = [] \<and>
   calculateSimilarity ''farm subsidy program'' ''farm program budget'' = 1 / 2 \<and>
   calculateSimilarity ''farm subsidy program'' ''farm subsidy program'' = 1 \<and>
   calculateSimilarity ''farm subsidy program'' ''farm program budget'' =
     calculateSimilarity ''farm program budget'' ''farm subsidy program'' \<and>
   calculateSimilarity ''the of 42'' ''farm program budget'' = 0"
proof -
  have k1: "extractKeywords ''farm subsidy program'' \<noteq> []" by code_simp
  have k2: "extractKeywords ''farm program budget'' \<noteq> []" by code_simp
  have k3: "extractKeywords ''the of 42'' = []" by code_simp
  have half: "calculateSimilarity ''farm subsidy program'' ''farm program budget'' = 1 / 2"
    by code_simp
  note inst = calculateSimilarity_is_jaccard
    [of "''farm subsidy program''" "''farm program budget''" "''farm subsidy program''"]
  note inst0 = calculateSimilarity_is_jaccard
    [of "''the of 42''" "''farm program budget''" "''farm subsidy program''"]
  from inst k1 have self: "calculateSimilarity ''farm subsidy program'' ''farm subsidy program'' = 1"
    by blast
  from inst have sym: "calculateSimilarity ''farm subsidy program'' ''farm program budget'' =
      calculateSimilarity ''farm program budget'' ''farm subsidy program''"
    by blast
  from inst0 k3 have zero: "calculateSimilarity ''the of 42'' ''farm program budget'' = 0"
    by blast
  show ?thesis
    using k1 k2 k3 half self sym zero by blast
qed

subsection \<open>Tool calls and their results\<close>

lemma is_Inr_obtain: "(case x of Inl a \<Rightarrow> False | Inr b \<Rightarrow> P b) \<Longrightarrow> \<exists>b. x = Inr b \<and> P b"
  by (cases x) auto

lemma tool_use_id_result_for: "tool_use_id (result_for e c) = tool_id c"
  by (simp add: result_for_def split: sum.splits)

lemma is_tool_result_result_for: "is_tool_result (result_for e c)"
  by (simp add: result_for_def split: sum.splits)

lemma result_ids: "map tool_use_id (map (result_for e) calls) = map tool_id calls"
  by (simp add: tool_use_id_result_for)

lemma executeToolCalls_Some:
  "content resp = Some items \<Longrightarrow>
   executeToolCalls e resp = Inr (map (result_for e) (filter is_tool_use items))"
proof -
  assume c: "content resp = Some items"
  let ?calls = "filter is_tool_use items"
  have "\<forall>i \<in> set (map tool_id ?calls). i \<in> set (map tool_use_id (map (result_for e) ?calls))"
    unfolding result_ids by simp
  then have "filter (\<lambda>i. i \<notin> set (map tool_use_id (map (result_for e) ?calls)))
          (map tool_id ?calls) = []"
    unfolding filter_empty_conv by blast
  with c show ?thesis
    unfolding executeToolCalls_def Let_def by simp
qed




lemma has_tool_use_content: "has_tool_use r \<Longrightarrow> \<exists>items. content r = Some items"
  by (auto simp: has_tool_use_def split: option.splits)










subsection \<open>The iteration budget\<close>

lemma has_tool_use_calls:
  "has_tool_use r \<Longrightarrow> content r = Some items \<Longrightarrow> filter is_tool_use items \<noteq> []"
  by (auto simp: has_tool_use_def list_ex_iff filter_empty_conv)

lemma result_turn:
  "calls \<noteq> [] \<Longrightarrow> tool_result_turn \<lparr>role = User, msg_content = Blocks (map (result_for e) calls)\<rparr>"
  by (cases calls) (simp_all add: tool_result_turn_def is_tool_result_result_for)

lemma rounds_append: "rounds (h @ t) = rounds h + rounds t"
  by (simp add: rounds_def)

lemma rounds_round:
  "calls \<noteq> [] \<Longrightarrow>
   rounds [\<lparr>role = Assistant, msg_content = c\<rparr>,
           \<lparr>role = User, msg_content = Blocks (map (result_for e) calls)\<rparr>] = 1"
  using result_turn [of calls e] by (simp add: rounds_def tool_result_turn_def)

lemma tool_loop_always:
  "\<forall>p. \<exists>r. post p = Inr r \<and> has_tool_use r \<Longrightarrow>
   has_tool_use (currentResponse st) \<Longrightarrow> iterationCount st \<le> bound \<Longrightarrow>
    \<exists>st'. tool_loop e post p0 bound st = Inr st' \<and>
      iterationCount st' = bound \<and> has_tool_use (currentResponse st') \<and>
      length (requests st') = length (requests st) + (bound - iterationCount st) \<and>
      rounds (conversationHistory st') =
        rounds (conversationHistory st) + (bound - iterationCount st) \<and>
      (\<forall>p \<in> set (requests st'). p \<in> set (requests st) \<or>
         (tools p = tools p0 \<and> tool_result_turn (last (messages p))))"
proof (induction e post p0 bound st rule: tool_loop.induct)
  case (1 e post p0 bound st)
  note model = "1.prems"(1) and tooluse = "1.prems"(2) and le = "1.prems"(3)
  show ?case
  proof (cases "iterationCount st < bound")
    case False
    with tooluse le show ?thesis
      by (simp add: tool_loop.simps)
  next
    case True
    from tooluse obtain items where items: "content (currentResponse st) = Some items"
      using has_tool_use_content by blast
    let ?calls = "filter is_tool_use items"
    let ?results = "map (result_for e) ?calls"
    let ?history = "conversationHistory st @
        [\<lparr>role = Assistant, msg_content = Blocks (response_blocks (currentResponse st))\<rparr>,
         \<lparr>role = User, msg_content = Blocks ?results\<rparr>]"
    let ?next = "p0\<lparr>messages := ?history\<rparr>"
    have calls: "?calls \<noteq> []"
      by (rule has_tool_use_calls [OF tooluse items])
    have ex: "executeToolCalls e (currentResponse st) = Inr ?results"
      by (rule executeToolCalls_Some [OF items])
    from model obtain nextResponse where
      post: "post ?next = Inr nextResponse" and tool: "has_tool_use nextResponse"
      by blast
    let ?st1 = "\<lparr>currentResponse = nextResponse, conversationHistory = ?history,
               iterationCount = iterationCount st + 1, requests = requests st @ [?next]\<rparr>"
    have guard: "has_tool_use (currentResponse st) \<and> iterationCount st < bound"
      using tooluse True by simp
    have step: "tool_loop e post p0 bound st = tool_loop e post p0 bound ?st1"
      using guard ex post by (subst tool_loop.simps) (simp add: Let_def)
    have "\<exists>st'. tool_loop e post p0 bound ?st1 = Inr st' \<and>
      iterationCount st' = bound \<and> has_tool_use (currentResponse st') \<and>
      length (requests st') = length (requests ?st1) + (bound - iterationCount ?st1) \<and>
      rounds (conversationHistory st') =
        rounds (conversationHistory ?st1) + (bound - iterationCount ?st1) \<and>
      (\<forall>p \<in> set (requests st'). p \<in> set (requests ?st1) \<or>
         (tools p = tools p0 \<and> tool_result_turn (last (messages p))))"
      by (rule "1.IH" [OF guard ex refl refl post model]) (use tool True in simp_all)
    then obtain st' where
      r: "tool_loop e post p0 bound ?st1 = Inr st'" and
      i: "iterationCount st' = bound" and t: "has_tool_use (currentResponse st')" and
      l: "length (requests st') = length (requests ?st1) + (bound - iterationCount ?st1)" and
      n: "rounds (conversationHistory st') =
        rounds (conversationHistory ?st1) + (bound - iterationCount ?st1)" and
      a: "\<forall>p \<in> set (requests st'). p \<in> set (requests ?st1) \<or>
         (tools p = tools p0 \<and> tool_result_turn (last (messages p)))"
      by blast
    have l': "length (requests st') = length (requests st) + (bound - iterationCount st)"
      using l True by simp
    have n': "rounds (conversationHistory st') =
        rounds (conversationHistory st) + (bound - iterationCount st)"
      using n True by (simp add: rounds_append rounds_round [OF calls])
    have new: "tools ?next = tools p0 \<and> tool_result_turn (last (messages ?next))"
      using result_turn [OF calls] by simp
    have a': "\<forall>p \<in> set (requests st'). p \<in> set (requests st) \<or>
         (tools p = tools p0 \<and> tool_result_turn (last (messages p)))"
      using a new by auto
    show ?thesis
      using step r i t l' n' a' by simp
  qed
qed

lemma not_turn_forced: "\<not> tool_result_turn forced_turn"
  by (simp add: tool_result_turn_def forced_turn_def)

text \<open>
  The branch after the loop, for any bound and any model. When the loop stops with the
  budget used up and the latest reply still asking for tools, the pending calls are
  executed, the assistant turn and the turn with one result per call are appended, then
  the turn that asks for the final answer, and one more request is sent, with the tool
  definitions of the original payload. With a model that asks for a tool in every reply,
  \<open>bound\<close> requests that end with a tool-result turn are followed by this one request,
  whose conversation holds the results of \<open>bound + 1\<close> executions.
\<close>

lemma exhausted_budget_final_request:
  "(tool_loop e post p0 bound
      \<lparr>currentResponse = resp, conversationHistory = messages p0, iterationCount = 0,
       requests = []\<rparr> = Inr st \<and>
    bound \<le> iterationCount st \<and> has_tool_use (currentResponse st) \<and>
    content (currentResponse st) = Some items \<longrightarrow>
      (\<exists>results finalPayload.
         executeToolCalls e (currentResponse st) = Inr results \<and>
         map tool_use_id results = map tool_id (filter is_tool_use items) \<and>
         messages finalPayload =
           conversationHistory st @
             [\<lparr>role = Assistant, msg_content = Blocks items\<rparr>,
              \<lparr>role = User, msg_content = Blocks results\<rparr>,
              forced_turn] \<and>
         tools finalPayload = tools p0 \<and>
         handleToolCallsBounded bound e post resp p0 =
           (case post finalPayload of
              Inl err \<Rightarrow> Inl err
            | Inr final \<Rightarrow> Inr (final, requests st @ [finalPayload])))) \<and>
   ((\<forall>p. \<exists>r. post p = Inr r \<and> has_tool_use r) \<and> has_tool_use resp \<longrightarrow>
      (\<exists>final sent.
         handleToolCallsBounded bound e post resp p0 = Inr (final, sent) \<and>
         length sent = bound + 1 \<and>
         post (last sent) = Inr final \<and>
         last (messages (last sent)) = forced_turn \<and>
         tools (last sent) = tools p0 \<and>
         rounds (messages (last sent)) = rounds (messages p0) + bound + 1 \<and>
         (\<forall>p \<in> set (butlast sent). tool_result_turn (last (messages p)))))"
proof (intro conjI impI)
  let ?st0 = "\<lparr>currentResponse = resp, conversationHistory = messages p0, iterationCount = 0,
       requests = []\<rparr>"
  assume "tool_loop e post p0 bound ?st0 = Inr st \<and>
    bound \<le> iterationCount st \<and> has_tool_use (currentResponse st) \<and>
    content (currentResponse st) = Some items"
  then have loop: "tool_loop e post p0 bound ?st0 = Inr st"
    and full: "bound \<le> iterationCount st" and tool: "has_tool_use (currentResponse st)"
    and items: "content (currentResponse st) = Some items"
    by simp_all
  let ?results = "map (result_for e) (filter is_tool_use items)"
  let ?final = "p0\<lparr>messages := conversationHistory st @
             [\<lparr>role = Assistant, msg_content = Blocks items\<rparr>,
              \<lparr>role = User, msg_content = Blocks ?results\<rparr>,
              forced_turn]\<rparr>"
  have ex: "executeToolCalls e (currentResponse st) = Inr ?results"
    by (rule executeToolCalls_Some [OF items])
  have blocks: "response_blocks (currentResponse st) = items"
    using items by (simp add: response_blocks_def)
  have run: "handleToolCallsBounded bound e post resp p0 =
      (case post ?final of Inl err \<Rightarrow> Inl err
       | Inr final \<Rightarrow> Inr (final, requests st @ [?final]))"
    using loop full tool ex blocks
    by (simp add: handleToolCallsBounded_def Let_def)
  show "\<exists>results finalPayload.
         executeToolCalls e (currentResponse st) = Inr results \<and>
         map tool_use_id results = map tool_id (filter is_tool_use items) \<and>
         messages finalPayload =
           conversationHistory st @
             [\<lparr>role = Assistant, msg_content = Blocks items\<rparr>,
              \<lparr>role = User, msg_content = Blocks results\<rparr>,
              forced_turn] \<and>
         tools finalPayload = tools p0 \<and>
         handleToolCallsBounded bound e post resp p0 =
           (case post finalPayload of
              Inl err \<Rightarrow> Inl err
            | Inr final \<Rightarrow> Inr (final, requests st @ [finalPayload]))"
    by (intro exI [of _ ?results] exI [of _ ?final] conjI ex result_ids run) simp_all
next
  let ?st0 = "\<lparr>currentResponse = resp, conversationHistory = messages p0, iterationCount = 0,
       requests = []\<rparr>"
  assume "(\<forall>p. \<exists>r. post p = Inr r \<and> has_tool_use r) \<and> has_tool_use resp"
  then have model: "\<forall>p. \<exists>r. post p = Inr r \<and> has_tool_use r" and first: "has_tool_use resp"
    by simp_all
  have "\<exists>st'. tool_loop e post p0 bound ?st0 = Inr st' \<and>
      iterationCount st' = bound \<and> has_tool_use (currentResponse st') \<and>
      length (requests st') = length (requests ?st0) + (bound - iterationCount ?st0) \<and>
      rounds (conversationHistory st') =
        rounds (conversationHistory ?st0) + (bound - iterationCount ?st0) \<and>
      (\<forall>p \<in> set (requests st'). p \<in> set (requests ?st0) \<or>
         (tools p = tools p0 \<and> tool_result_turn (last (messages p))))"
    by (rule tool_loop_always [OF model]) (use first in simp_all)
  then obtain st where loop: "tool_loop e post p0 bound ?st0 = Inr st"
    and full: "iterationCount st = bound" and tool: "has_tool_use (currentResponse st)"
    and len: "length (requests st) = bound"
    and count: "rounds (conversationHistory st) = rounds (messages p0) + bound"
    and earlier: "\<forall>p \<in> set (requests st). tool_result_turn (last (messages p))"
    by auto
  from tool obtain items where items: "content (currentResponse st) = Some items"
    using has_tool_use_content by blast
  let ?calls = "filter is_tool_use items"
  let ?results = "map (result_for e) ?calls"
  let ?final = "p0\<lparr>messages := conversationHistory st @
             [\<lparr>role = Assistant, msg_content = Blocks items\<rparr>,
              \<lparr>role = User, msg_content = Blocks ?results\<rparr>,
              forced_turn]\<rparr>"
  have calls: "?calls \<noteq> []"
    by (rule has_tool_use_calls [OF tool items])
  have ex: "executeToolCalls e (currentResponse st) = Inr ?results"
    by (rule executeToolCalls_Some [OF items])
  have blocks: "response_blocks (currentResponse st) = items"
    using items by (simp add: response_blocks_def)
  from model obtain final where post: "post ?final = Inr final"
    by blast
  have run: "handleToolCallsBounded bound e post resp p0 = Inr (final, requests st @ [?final])"
    using loop full tool ex blocks post
    by (simp add: handleToolCallsBounded_def Let_def)
  have cnt: "rounds (messages ?final) = rounds (messages p0) + bound + 1"
  proof -
    have "rounds (messages ?final) =
        rounds (conversationHistory st) +
        (rounds [\<lparr>role = Assistant, msg_content = Blocks items\<rparr>,
                 \<lparr>role = User, msg_content = Blocks ?results\<rparr>] + rounds [forced_turn])"
      by (simp add: rounds_def)
    also have "rounds [forced_turn] = 0"
      using not_turn_forced by (simp add: rounds_def)
    finally show ?thesis
      using count rounds_round [OF calls, of "Blocks items" e] by simp
  qed
  show "\<exists>final sent.
         handleToolCallsBounded bound e post resp p0 = Inr (final, sent) \<and>
         length sent = bound + 1 \<and>
         post (last sent) = Inr final \<and>
         last (messages (last sent)) = forced_turn \<and>
         tools (last sent) = tools p0 \<and>
         rounds (messages (last sent)) = rounds (messages p0) + bound + 1 \<and>
         (\<forall>p \<in> set (butlast sent). tool_result_turn (last (messages p)))"
  proof (intro exI [of _ final] exI [of _ "requests st @ [?final]"] conjI)
    show "handleToolCallsBounded bound e post resp p0 = Inr (final, requests st @ [?final])"
      by (rule run)
    show "length (requests st @ [?final]) = bound + 1"
      using len by simp
    show "post (last (requests st @ [?final])) = Inr final"
      using post by simp
    show "last (messages (last (requests st @ [?final]))) = forced_turn"
      by simp
    show "tools (last (requests st @ [?final])) = tools p0"
      by simp
    show "rounds (messages (last (requests st @ [?final]))) = rounds (messages p0) + bound + 1"
      using cnt by simp
    show "\<forall>p \<in> set (butlast (requests st @ [?final])). tool_result_turn (last (messages p))"
      using earlier by simp
  qed
qed

text \<open>
  C2 fails on the code in its last part. The budget is the constant 3. With a model that
  asks for a tool in every reply, the loop sends three requests that end with a
  tool-result turn; the branch after the loop executes the pending calls, appends their
  results and the turn that asks for the final answer, and sends one more request. That
  request still carries the five tool definitions of the original payload, and its reply
  is returned unchecked: here it is one more tool request, whose call stays unanswered,
  and \<open>parseResponse\<close> finds no text in it.
\<close>

theorem forced_round_still_offers_tools:
  "\<exists>final sent.
     handleToolCallsRecursively example_env (\<lambda>p. Inr always_tool) always_tool example_payload =
       Inr (final, sent) \<and>
     map (\<lambda>p. tool_result_turn (last (messages p))) sent = [True, True, True, False] \<and>
     map (\<lambda>p. rounds (messages p)) sent = [1, 2, 3, 4] \<and>
     last (messages (last sent)) = forced_turn \<and>
     paired (messages (last sent)) \<and>
     tools (last sent) =
       [''search_sections'', ''get_section_by_id'', ''search_by_topic'', ''get_bill_overview'',
        ''search_financial_impact''] \<and>
     final = always_tool \<and>
     has_tool_use final \<and>
     parseResponse example_parse ''claude'' ''now'' final =
       Inl (Error ''Failed to parse Claude response'')"
proof -
  let ?run = "handleToolCallsRecursively example_env (\<lambda>p. Inr always_tool) always_tool
      example_payload"
  have returns: "case ?run of Inl err \<Rightarrow> False | Inr out \<Rightarrow> length (snd out) = 4"
    by code_simp
  have facts: "case ?run of
        Inl err \<Rightarrow> False
      | Inr out \<Rightarrow>
          map (\<lambda>p. tool_result_turn (last (messages p))) (snd out) = [True, True, True, False] \<and>
          map (\<lambda>p. rounds (messages p)) (snd out) = [1, 2, 3, 4] \<and>
          last (messages (last (snd out))) = forced_turn \<and>
          paired (messages (last (snd out))) \<and>
          tools (last (snd out)) =
            [''search_sections'', ''get_section_by_id'', ''search_by_topic'',
             ''get_bill_overview'', ''search_financial_impact''] \<and>
          fst out = always_tool \<and>
          has_tool_use (fst out) \<and>
          parseResponse example_parse ''claude'' ''now'' (fst out) =
            Inl (Error ''Failed to parse Claude response'')"
    by code_simp
  from returns obtain out where "?run = Inr out" and "length (snd out) = 4"
    using is_Inr_obtain by blast
  then obtain final sent where run: "?run = Inr (final, sent)"
    by (cases out) auto
  note props = facts [unfolded run sum.case fst_conv snd_conv]
  show ?thesis
    by (rule exI [of _ final], rule exI [of _ sent], rule conjI [OF run props])
qed

subsection \<open>Parents in the section map\<close>

lemma keys_obj_set: "fst ` set (obj_set obj k v) = insert k (fst ` set obj)"
  by (force simp: obj_set_def image_iff split: if_splits)

lemma in_obj_set: "(k', v') \<in> set (obj_set obj k v) \<Longrightarrow> (k', v') \<in> set obj \<or> (k' = k \<and> v' = v)"
  by (auto simp: obj_set_def split: if_splits)

lemma extractSectionDataSimple_Some:
  "extractSectionDataSimple obj p l = Some section \<Longrightarrow>
   parentId section = p \<and> node_id obj = Some (s_id section)"
  by (cases obj) (auto simp: Let_def split: option.splits if_splits)

lemma parent_known_mono:
  "parent_known s p \<Longrightarrow> fst ` set s \<subseteq> fst ` set s' \<Longrightarrow> parent_known s' p"
  by (auto simp: parent_known_def split: option.splits)

lemma parent_recorded_mono:
  "parent_recorded s p \<Longrightarrow> fst ` set s \<subseteq> fst ` set s' \<Longrightarrow> parent_recorded s' p"
  unfolding parent_recorded_def using parent_known_mono by blast

lemma parents_recorded_obj_set:
  assumes "parents_recorded s" and "parent_recorded s (parentId section)"
  shows "parents_recorded (obj_set s k section)"
  unfolding parents_recorded_def list_all_iff
proof (intro ballI)
  fix entry assume e: "entry \<in> set (obj_set s k section)"
  obtain k' v' where kv: "entry = (k', v')" by (cases entry)
  have sub: "fst ` set s \<subseteq> fst ` set (obj_set s k section)"
    by (auto simp: keys_obj_set)
  from e kv in_obj_set have "(k', v') \<in> set s \<or> (k' = k \<and> v' = section)" by fast
  then have "parent_recorded s (parentId v')"
    using assms by (auto simp: parents_recorded_def list_all_iff)
  then have "parent_recorded (obj_set s k section) (parentId v')"
    using sub by (rule parent_recorded_mono)
  then show "case entry of (key, other) \<Rightarrow> parent_recorded (obj_set s k section) (parentId other)"
    using kv by simp
qed

lemma store_node_keeps:
  assumes inv: "parents_recorded s" and par: "parent_recorded s p"
  shows "parents_recorded (store_node obj s p l) \<and>
    fst ` set s \<subseteq> fst ` set (store_node obj s p l) \<and>
    parent_recorded (store_node obj s p l) (node_id obj)"
proof (cases "node_id obj")
  case None
  with inv show ?thesis
    by (simp add: store_node_def parent_recorded_def parent_known_def)
next
  case (Some i)
  show ?thesis
  proof (cases "extractSectionDataSimple obj p l")
    case None
    with Some show ?thesis
      by (cases obj) (simp_all add: Let_def)
  next
    case (Some sec)
    note facts = extractSectionDataSimple_Some [OF Some]
    show ?thesis
    proof (cases "s_id sec = ''__proto__''")
      case True
      with Some facts have "store_node obj s p l = s"
        by (simp add: store_node_def)
      with inv facts True show ?thesis
        by (simp add: parent_recorded_def)
    next
      case False
      then have eq: "store_node obj s p l = obj_set s (s_id sec) sec"
        using Some facts by (simp add: store_node_def)
      have "parents_recorded (obj_set s (s_id sec) sec)"
        using inv par facts by (simp add: parents_recorded_obj_set)
      moreover have "fst ` set s \<subseteq> fst ` set (obj_set s (s_id sec) sec)"
        by (auto simp: keys_obj_set)
      moreover have "parent_recorded (obj_set s (s_id sec) sec) (node_id obj)"
        using facts by (simp add: parent_recorded_def parent_known_def keys_obj_set)
      ultimately show ?thesis
        using eq by simp
    qed
  qed
qed

lemma process_preserves:
  "parents_recorded s \<and> parent_recorded s p \<longrightarrow>
     parents_recorded (processSectionsSimple n s p l) \<and>
     fst ` set s \<subseteq> fst ` set (processSectionsSimple n s p l)"
  "parents_recorded s \<and> parent_recorded s p \<and> parent_recorded s own \<longrightarrow>
     parents_recorded (process_items items own s p l) \<and>
     fst ` set s \<subseteq> fst ` set (process_items items own s p l)"
  "parents_recorded s \<and> parent_recorded s p \<and> parent_recorded s own \<longrightarrow>
     parents_recorded (process_groups groups own s p l) \<and>
     fst ` set s \<subseteq> fst ` set (process_groups groups own s p l)"
proof (induction n s p l and items own s p l and groups own s p l
    rule: processSectionsSimple_process_items_process_groups.induct)
  case (1 t s p l)
  show ?case by simp
next
  case (2 attrs c groups s p l)
  let ?obj = "XElement attrs c groups"
  let ?stored = "store_node ?obj s p l"
  show ?case
  proof (intro impI)
    assume a: "parents_recorded s \<and> parent_recorded s p"
    then have st: "parents_recorded ?stored \<and> fst ` set s \<subseteq> fst ` set ?stored \<and>
        parent_recorded ?stored (node_id ?obj)"
      using store_node_keeps by blast
    then have "parent_recorded ?stored p"
      using a parent_recorded_mono by blast
    with "2.IH" st
    have "parents_recorded (process_groups groups (node_id ?obj) ?stored p l) \<and>
        fst ` set ?stored \<subseteq> fst ` set (process_groups groups (node_id ?obj) ?stored p l)"
      by blast
    moreover have "processSectionsSimple ?obj s p l =
        process_groups groups (node_id ?obj) ?stored p l"
      by (simp del: node_id.simps)
    ultimately show "parents_recorded (processSectionsSimple ?obj s p l) \<and>
        fst ` set s \<subseteq> fst ` set (processSectionsSimple ?obj s p l)"
      using st by (simp only:) blast
  qed
next
  case (3 own s p l)
  show ?case by simp
next
  case (4 item items own s p l)
  let ?inner = "case own of Some i \<Rightarrow> Some i | None \<Rightarrow> p"
  let ?s1 = "if node_id item \<noteq> None then processSectionsSimple item s ?inner (l + 1)
      else processSectionsSimple item s p l"
  show ?case
  proof (intro impI)
    assume a: "parents_recorded s \<and> parent_recorded s p \<and> parent_recorded s own"
    then have inner: "parent_recorded s ?inner"
      by (cases own) simp_all
    have step: "parents_recorded ?s1 \<and> fst ` set s \<subseteq> fst ` set ?s1"
    proof (cases "node_id item \<noteq> None")
      case True
      then have eq: "?s1 = processSectionsSimple item s ?inner (l + 1)"
        by simp
      from "4.IH"(1) [OF True] a inner
      have "parents_recorded (processSectionsSimple item s ?inner (l + 1)) \<and>
          fst ` set s \<subseteq> fst ` set (processSectionsSimple item s ?inner (l + 1))"
        by blast
      with eq show ?thesis by (simp only:)
    next
      case False
      then have eq: "?s1 = processSectionsSimple item s p l"
        by simp
      from "4.IH"(2) [OF False] a
      have "parents_recorded (processSectionsSimple item s p l) \<and>
          fst ` set s \<subseteq> fst ` set (processSectionsSimple item s p l)"
        by blast
      with eq show ?thesis by (simp only:)
    qed
    then have "parent_recorded ?s1 p \<and> parent_recorded ?s1 own"
      using a parent_recorded_mono by blast
    with "4.IH"(3) step
    have "parents_recorded (process_items items own ?s1 p l) \<and>
        fst ` set ?s1 \<subseteq> fst ` set (process_items items own ?s1 p l)"
      by blast
    moreover have "process_items (item # items) own s p l = process_items items own ?s1 p l"
      by (simp only: process_items.simps)
    ultimately show "parents_recorded (process_items (item # items) own s p l) \<and>
        fst ` set s \<subseteq> fst ` set (process_items (item # items) own s p l)"
      using step by (simp only:) blast
  qed
next
  case (5 own s p l)
  show ?case by simp
next
  case (6 tag items groups own s p l)
  let ?s1 = "process_items items own s p l"
  show ?case
  proof (intro impI)
    assume a: "parents_recorded s \<and> parent_recorded s p \<and> parent_recorded s own"
    with "6.IH"(1) have step: "parents_recorded ?s1 \<and> fst ` set s \<subseteq> fst ` set ?s1"
      by blast
    then have "parent_recorded ?s1 p \<and> parent_recorded ?s1 own"
      using a parent_recorded_mono by blast
    with "6.IH"(2) step
    have "parents_recorded (process_groups groups own ?s1 p l) \<and>
        fst ` set ?s1 \<subseteq> fst ` set (process_groups groups own ?s1 p l)"
      by blast
    moreover have "process_groups ((tag, items) # groups) own s p l =
        process_groups groups own ?s1 p l"
      by (simp only: process_groups.simps)
    ultimately show "parents_recorded (process_groups ((tag, items) # groups) own s p l) \<and>
        fst ` set s \<subseteq> fst ` set (process_groups ((tag, items) # groups) own s p l)"
      using step by (simp only:) blast
  qed
qed

lemma parents_recorded_build: "parents_recorded (build_sections parsedXml)"
proof -
  have "parents_recorded [] \<and> parent_recorded [] None"
    by (simp add: parents_recorded_def parent_recorded_def parent_known_def)
  with process_preserves(1) [of "[]" None parsedXml 0] show ?thesis
    by (simp only: build_sections_def)
qed

lemma store_node_no_proto:
  "''__proto__'' \<notin> fst ` set s \<Longrightarrow> ''__proto__'' \<notin> fst ` set (store_node obj s p l)"
  by (auto simp: store_node_def keys_obj_set split: option.splits)

lemma process_no_proto:
  "''__proto__'' \<notin> fst ` set s \<longrightarrow> ''__proto__'' \<notin> fst ` set (processSectionsSimple n s p l)"
  "''__proto__'' \<notin> fst ` set s \<longrightarrow> ''__proto__'' \<notin> fst ` set (process_items items own s p l)"
  "''__proto__'' \<notin> fst ` set s \<longrightarrow> ''__proto__'' \<notin> fst ` set (process_groups groups own s p l)"
proof (induction n s p l and items own s p l and groups own s p l
    rule: processSectionsSimple_process_items_process_groups.induct)
  case (2 attrs c groups s p l)
  show ?case
    using "2.IH" store_node_no_proto [of s "XElement attrs c groups" p l]
    by (simp del: node_id.simps)
next
  case (4 item items own s p l)
  show ?case
  proof (cases "node_id item \<noteq> None")
    case True
    with "4.IH"(1) "4.IH"(3) show ?thesis by simp
  next
    case False
    with "4.IH"(2) "4.IH"(3) show ?thesis by simp
  qed
qed simp_all

text \<open>
  In the section map that indexing builds from any parsed document, the \<open>parentId\<close> of a
  section is \<open>null\<close>, or a key of that same map, or the string \<open>__proto__\<close>, which is never
  a key of the map.
\<close>

lemma parent_is_null_or_a_key_or_proto:
  "(\<forall>(k, section) \<in> set (build_sections parsedXml).
      parentId section = None \<or> parentId section = Some ''__proto__'' \<or>
      (\<exists>i. parentId section = Some i \<and> i \<in> fst ` set (build_sections parsedXml))) \<and>
   ''__proto__'' \<notin> fst ` set (build_sections parsedXml)"
proof
  show "\<forall>(k, section) \<in> set (build_sections parsedXml).
      parentId section = None \<or> parentId section = Some ''__proto__'' \<or>
      (\<exists>i. parentId section = Some i \<and> i \<in> fst ` set (build_sections parsedXml))"
    using parents_recorded_build [of parsedXml]
    by (auto simp: parents_recorded_def parent_recorded_def parent_known_def list_all_iff
        split: option.splits)
  show "''__proto__'' \<notin> fst ` set (build_sections parsedXml)"
    using process_no_proto(1) [of "[]" parsedXml None 0] by (simp add: build_sections_def)
qed

text \<open>
  C6 fails on the code for a document in which a node with the id \<open>__proto__\<close> has a child
  with an id. Indexing completes; the child is stored with the \<open>parentId\<close> \<open>__proto__\<close>; the
  node \<open>__proto__\<close> itself is not a key of the map, because the assignment
  \<open>sections['__proto__'] = section\<close> sets the prototype of the map instead of adding a key.
  So the section map holds a section whose \<open>parentId\<close> is neither \<open>null\<close> nor one of its
  keys.
\<close>

theorem proto_parent_is_no_key:
  "buildDocumentStructure proto_document =
     Inr \<lparr>sections =
            [(''B'', example_section ''B'' ''defense spending budget''
                      ''defense spending budget'' 2 (Some ''__proto__''))],
          searchIndex = [(''defense'', [''B'']), (''spending'', [''B'']), (''budget'', [''B''])]\<rparr> \<and>
   map fst (build_sections proto_document) = [''B''] \<and>
   map (\<lambda>(k, section). parentId section) (build_sections proto_document) = [Some ''__proto__''] \<and>
   \<not> parents_present (build_sections proto_document)"
  by code_simp

subsection \<open>The result-size cap\<close>

text \<open>
  C7 fails on the code for a negative \<open>maxResults\<close>: \<open>Math.min(-1, 3)\<close> is \<open>-1\<close>, and
  \<open>slice(0, -1)\<close> drops the last entry only. Five sections of the small bill mention
  \<open>budget\<close>; each of the three search operations returns four of them, more than the cap
  of 3.
\<close>

theorem negative_maxResults_exceeds_cap:
  "result_count (executeSearchSections example_env
      (JObj [(''query'', JStr ''budget''), (''maxResults'', JNum (- 1))])) = Some 4 \<and>
   result_count (executeSearchByTopic example_env
      (JObj [(''topic'', JStr ''budget''), (''maxResults'', JNum (- 1))])) = Some 4 \<and>
   result_count (executeSearchFinancialImpact example_env
      (JObj [(''impactType'', JStr ''budget''), (''maxResults'', JNum (- 1))])) = Some 4"
  by code_simp

text \<open>The cap does hold when \<open>maxResults\<close> is absent or a number that is not negative.\<close>

lemma try_map_length: "try_map f xs = Inr ys \<Longrightarrow> length ys = length xs"
  by (induction xs arbitrary: ys) (auto split: sum.splits)

lemma slice0_min_length: "0 \<le> n \<Longrightarrow> length (slice0 xs (math_min (Fin n) 3)) \<le> 3"
  by simp

lemma searchSections_length:
  assumes "searchSections p q limit = Inr results"
  shows "\<exists>entries :: (string \<times> nat) list. length results = length (slice0 entries limit)"
proof -
  from assms obtain ranked where "rankedSections p q limit = Inr ranked"
    and len: "length results = length ranked"
    by (auto simp: searchSections_def split: sum.splits option.splits if_splits)
  then obtain entries :: "(string \<times> nat) list" where "ranked = slice0 entries limit"
  proof (cases "parserData p")
    case None
    with \<open>rankedSections p q limit = Inr ranked\<close> have "ranked = slice0 [] limit"
      by (cases limit) (auto simp: rankedSections_def split: if_splits)
    with that show ?thesis by blast
  next
    case (Some d)
    with \<open>rankedSections p q limit = Inr ranked\<close> that show ?thesis
      by (auto simp: rankedSections_def split: sum.splits if_splits)
  qed
  with len show ?thesis by blast
qed

lemma capped_limit:
  assumes "m = JUndefined \<or> (\<exists>n. m = JNum n \<and> 0 \<le> n)"
  shows "\<exists>n. 0 \<le> n \<and> to_number e (or_default m (JNum 3)) = Fin n"
  using assms by (auto simp: or_default_def to_number_def)

lemma cap_holds_for_natural_maxResults:
  assumes m: "get_field input ''maxResults'' = Inr m"
    and ok: "m = JUndefined \<or> (\<exists>n. m = JNum n \<and> 0 \<le> n)"
  shows "(result_count (executeSearchSections e input) = Some k \<longrightarrow> k \<le> 3) \<and>
    (result_count (executeSearchByTopic e input) = Some k \<longrightarrow> k \<le> 3) \<and>
    (result_count (executeSearchFinancialImpact e input) = Some k \<longrightarrow> k \<le> 3)"
proof -
  obtain n where n: "0 \<le> n" "to_number e (or_default m (JNum 3)) = Fin n"
    using capped_limit [OF ok] by blast
  have short: "length results \<le> 3"
    if "searchSections (parser e) q (math_min (Fin n) 3) = Inr results" for q results
    using searchSections_length [OF that] slice0_min_length [OF n(1)] by auto
  show ?thesis
  proof (intro conjI impI)
    assume "result_count (executeSearchSections e input) = Some k"
    then show "k \<le> 3"
      using m n(2) short
      by (auto simp: result_count_def executeSearchSections_def Let_def
          dest!: try_map_length split: sum.splits option.splits jsval.splits)
  next
    assume "result_count (executeSearchByTopic e input) = Some k"
    then show "k \<le> 3"
      using m n(2) short
      by (auto simp: result_count_def executeSearchByTopic_def search_by_table_def Let_def
          dest!: try_map_length split: sum.splits option.splits jsval.splits if_splits)
  next
    assume "result_count (executeSearchFinancialImpact e input) = Some k"
    then show "k \<le> 3"
      using m n(2) short
      by (auto simp: result_count_def executeSearchFinancialImpact_def search_by_table_def Let_def
          dest!: try_map_length split: sum.splits option.splits jsval.splits if_splits)
  qed
qed

subsection \<open>The final reply\<close>

text \<open>
  C4 fails on the code: a payload that has the four required fields and no \<open>confidence\<close>
  comes back without one, since the defaults are filled in only when one of the four
  required fields is missing.
\<close>

theorem parseResponse_leaves_confidence_out:
  "parseResponse example_parse ''claude'' ''now''
     (reply [TextItem (''Here is info: '' @ example_payload_text)]) =
   Inr [(''answer'', JStr ''x''), (''sections'', JArr [JStr ''S1'']),
        (''keyPoints'', JArr [JStr ''p1'']), (''implications'', JStr ''i''),
        (''metadata'', JObj [(''model'', JStr ''claude''), (''requestId'', JStr ''msg''),
                            (''usage'', JNull), (''timestamp'', JStr ''now'')])]"
  by code_simp

text \<open>The fallback path on two list lines, and a reply that is a bare JSON number.\<close>

lemma parseResponse_list_lines:
  "parseResponse (\<lambda>s. None) ''claude'' ''now''
     (reply [TextItem (''- point one'' @ [CHR 0x0A] @ ''- point two'')]) =
   Inr [(''answer'', JStr (''- point one'' @ [CHR 0x0A] @ ''- point two'')),
        (''sections'', JArr []),
        (''keyPoints'', JArr [JStr ''point one'', JStr ''point two'']),
        (''implications'', JStr ''Based on the analysis provided above.''),
        (''confidence'', JStr ''medium''),
        (''metadata'', JObj [(''model'', JStr ''claude''), (''requestId'', JStr ''msg''),
                            (''usage'', JNull), (''timestamp'', JStr ''now'')])]"
  by code_simp

lemma parseResponse_primitive:
  "parseResponse (\<lambda>s. if s = ''42'' then Some (JNum 42) else None) ''claude'' ''now''
     (reply [TextItem ''42'']) = Inl (Error ''Failed to parse Claude response'')"
  by code_simp
subsection \<open>Query validation\<close>

text \<open>
  C10 fails on the code: for a truthy value that is not a string (a number, \<open>true\<close>, an
  array, an object) \<open>validateQuery\<close> throws when it calls \<open>query.trim()\<close>, after it has
  noted that the query must be a string. On strings and on falsy values it behaves as
  claimed.
\<close>

theorem validateQuery_throws_on_number:
  "validateQuery (JNum 5) = Inl (TypeError ''query.trim is not a function'') \<and>
   validateQuery (JBool True) = Inl (TypeError ''query.trim is not a function'') \<and>
   validateQuery (JArr []) = Inl (TypeError ''query.trim is not a function'') \<and>
   validateQuery (JObj [(''text'', JStr ''tax'')]) = Inl (TypeError ''query.trim is not a function'')"
  by (simp add: validateQuery_def)

lemma validateQuery_string:
  "\<exists>v. validateQuery (JStr s) = Inr v \<and>
     (valid v \<longleftrightarrow> trim s \<noteq> [] \<and> length s \<le> 1000) \<and>
     (\<not> valid v \<longrightarrow> errors v \<noteq> [])"
  by (auto simp: validateQuery_def Let_def trim_def)

lemma validateQuery_falsy:
  "\<not> truthy q \<Longrightarrow> \<exists>v. validateQuery q = Inr v \<and> \<not> valid v \<and> errors v \<noteq> []"
  by (cases q) (auto simp: validateQuery_def Let_def)

subsection \<open>Keyword search\<close>

lemma js_set_snoc: "js_set (xs @ [x]) = (if x \<in> set xs then js_set xs else js_set xs @ [x])"
  by (simp add: js_set_def)

lemma map_of_tabulate:
  "map_of (map (\<lambda>i. (i, f i)) ys) x = (if x \<in> set ys then Some (f x) else None)"
  by (induction ys) auto

lemma bump_score_table: "bump (score_table seq) x = score_table (seq @ [x])"
proof (cases "x \<in> set seq")
  case True
  then have "x \<in> fst ` set (score_table seq)"
    by (force simp: score_table_def set_js_set)
  then show ?thesis
    using True
    by (simp add: bump_def obj_set_def score_table_def map_of_tabulate set_js_set js_set_snoc)
next
  case False
  then have "x \<notin> fst ` set (score_table seq)"
    by (force simp: score_table_def set_js_set)
  then show ?thesis
    using False
    by (auto simp: bump_def obj_set_def score_table_def map_of_tabulate set_js_set js_set_snoc)
qed

lemma foldl_bump: "foldl bump (score_table seq) ids = score_table (seq @ ids)"
  by (induction ids arbitrary: seq) (simp_all add: bump_score_table)

lemma score_keywords_table:
  "score_keywords index kws (score_table seq) =
     (if list_all (\<lambda>keyword. get_property index keyword \<noteq> Inherited) kws
      then Inr (score_table (seq @ concat (map (index_list index) kws)))
      else Inl (TypeError ''matchingSections.forEach is not a function''))"
proof (induction kws arbitrary: seq)
  case Nil
  show ?case by simp
next
  case (Cons keyword kws)
  show ?case
  proof (cases "get_property index keyword")
    case (Own ids)
    then have "index_list index keyword = ids"
      by (auto simp: get_property_def index_list_def split: option.splits if_splits)
    with Own Cons [of "seq @ ids"] show ?thesis
      by (simp add: foldl_bump)
  next
    case Inherited
    then show ?thesis by simp
  next
    case Absent
    then have "index_list index keyword = []"
      by (auto simp: get_property_def index_list_def split: option.splits if_splits)
    with Absent Cons [of seq] show ?thesis
      by simp
  qed
qed

lemma insort_key_tabulate:
  "insort_key (\<lambda>(k, v). g k) (x, f x) (map (\<lambda>i. (i, f i)) zs) =
   map (\<lambda>i. (i, f i)) (insort_key g x zs)"
  by (induction zs) simp_all

lemma sort_key_tabulate:
  "sort_key (\<lambda>(k, v). g k) (map (\<lambda>i. (i, f i)) ys) = map (\<lambda>i. (i, f i)) (sort_key g ys)"
  by (induction ys) (simp_all add: insort_key_tabulate)

lemma filter_tabulate:
  "filter (\<lambda>(k, v). P k) (map (\<lambda>i. (i, f i)) ys) = map (\<lambda>i. (i, f i)) (filter P ys)"
  by (induction ys) simp_all

lemma object_entries_tabulate:
  "object_entries (map (\<lambda>i. (i, f i)) ys) = map (\<lambda>i. (i, f i)) (key_order ys)"
  by (simp add: object_entries_def key_order_def filter_tabulate sort_key_tabulate)

lemma set_key_order: "set (key_order ks) = set ks"
  by (auto simp: key_order_def)

lemma key_order_plain: "list_all (\<lambda>k. array_index k = None) ks \<Longrightarrow> key_order ks = ks"
  by (simp add: key_order_def list_all_iff)

lemma index_list_distinct: "distinct_lists index \<Longrightarrow> distinct (index_list index kw)"
  by (auto simp: distinct_lists_def index_list_def list_all_iff dest!: map_of_SomeD
      split: option.splits)

lemma count_list_distinct: "distinct xs \<Longrightarrow> count_list xs x = (if x \<in> set xs then 1 else 0)"
  by (induction xs) auto

lemma count_matches:
  assumes "distinct_lists index"
  shows "count_list (concat (map (index_list index) kws)) i = matches index kws i"
  using index_list_distinct [OF assms]
  by (induction kws) (simp_all add: matches_def count_list_distinct)


lemma sort_by_score_stable:
  "filter (\<lambda>e. snd e = sc) (sort_by_score entries) = filter (\<lambda>e. snd e = sc) entries"
proof -
  have "filter (\<lambda>e. (case e of (i, s) \<Rightarrow> - int s) = - int sc) (sort_by_score entries) =
      filter (\<lambda>e. (case e of (i, s) \<Rightarrow> - int s) = - int sc) entries"
    unfolding sort_by_score_def by (rule sort_key_stable)
  moreover have "(\<lambda>e :: string \<times> nat. (case e of (i, s) \<Rightarrow> - int s) = - int sc) = (\<lambda>e. snd e = sc)"
    by (auto simp: fun_eq_iff)
  ultimately show ?thesis by simp
qed

lemma sort_by_score_descending: "sorted_wrt (\<lambda>a b. snd b \<le> snd a) (sort_by_score entries)"
proof -
  have "sorted (map (\<lambda>(i, s). - int s) (sort_by_score entries))"
    unfolding sort_by_score_def by (rule sorted_sort_key)
  then have "sorted_wrt (\<lambda>a b. (case a of (i, s) \<Rightarrow> - int s) \<le> (case b of (i, s) \<Rightarrow> - int s))
      (sort_by_score entries)"
    by (simp add: sorted_map)
  then show ?thesis
    by (rule sorted_wrt_mono_rel [rotated]) auto
qed

lemma rankedSections_table:
  assumes "isInitialized p" and "parserData p = Some d"
  shows "rankedSections p q limit =
     (if list_all (\<lambda>kw. get_property (searchIndex d) kw \<noteq> Inherited) (extractKeywords q)
      then Inr (slice0 (sort_by_score
             (map (\<lambda>i. (i, count_list (concat (map (index_list (searchIndex d)) (extractKeywords q))) i))
                (key_order (encountered (searchIndex d) (extractKeywords q))))) limit)
      else Inl (TypeError ''matchingSections.forEach is not a function''))"
proof -
  let ?seq = "concat (map (index_list (searchIndex d)) (extractKeywords q))"
  have empty: "score_table [] = []"
    by (simp add: score_table_def js_set_def)
  have sk: "score_keywords (searchIndex d) (extractKeywords q) [] =
     (if list_all (\<lambda>kw. get_property (searchIndex d) kw \<noteq> Inherited) (extractKeywords q)
      then Inr (score_table ?seq)
      else Inl (TypeError ''matchingSections.forEach is not a function''))"
    using score_keywords_table [of "searchIndex d" "extractKeywords q" "[]"]
    by (simp only: empty append_Nil)
  have entries: "object_entries (score_table ?seq) =
      map (\<lambda>i. (i, count_list ?seq i)) (key_order (encountered (searchIndex d) (extractKeywords q)))"
    by (simp only: score_table_def object_entries_tabulate encountered_def)
  show ?thesis
    using assms by (simp add: rankedSections_def sk entries)
qed

text \<open>Every index that \<open>buildDocumentStructure\<close> returns lists a section at most once
  under a keyword.\<close>

lemma distinct_lists_obj_set:
  "distinct_lists index \<Longrightarrow> distinct ids \<Longrightarrow> distinct_lists (obj_set index kw ids)"
  unfolding distinct_lists_def list_all_iff using in_obj_set by fast

lemma distinct_lists_lookup:
  "distinct_lists index \<Longrightarrow> get_property index kw = Own ids \<Longrightarrow> distinct ids"
  by (auto simp: distinct_lists_def list_all_iff get_property_def dest!: map_of_SomeD
      split: option.splits if_splits)

lemma index_keywords_distinct:
  "distinct_lists index \<Longrightarrow> index_keywords index sectionId kws = Inr index' \<Longrightarrow>
   distinct_lists index'"
proof (induction kws arbitrary: index)
  case Nil
  then show ?case by simp
next
  case (Cons kw kws)
  show ?case
  proof (cases "get_property index kw")
    case (Own ids)
    with Cons.prems(1) have d: "distinct ids"
      using distinct_lists_lookup by blast
    have "distinct_lists (if sectionId \<in> set ids then index
        else obj_set index kw (ids @ [sectionId]))"
      using Cons.prems(1) d by (simp add: distinct_lists_obj_set)
    with Cons.IH Cons.prems(2) Own show ?thesis
      by simp
  next
    case Inherited
    with Cons.prems(2) show ?thesis by simp
  next
    case Absent
    have "distinct_lists (obj_set index kw [sectionId])"
      using Cons.prems(1) by (simp add: distinct_lists_obj_set)
    with Cons.IH Cons.prems(2) Absent show ?thesis
      by simp
  qed
qed

lemma index_sections_distinct:
  "distinct_lists index \<Longrightarrow> index_sections index entries = Inr index' \<Longrightarrow>
   distinct_lists index'"
proof (induction entries arbitrary: index)
  case Nil
  then show ?case by simp
next
  case (Cons entry entries)
  obtain sectionId sec where entry: "entry = (sectionId, sec)"
    by (cases entry)
  with Cons.prems(2) obtain mid where
    first: "index_keywords index sectionId
        (extractKeywords (title sec) @ extractKeywords (fullText sec)) = Inr mid" and
    rest: "index_sections mid entries = Inr index'"
    by (auto split: sum.splits)
  from index_keywords_distinct [OF Cons.prems(1) first] have "distinct_lists mid" .
  with Cons.IH rest show ?case by blast
qed

lemma buildDocumentStructure_distinct_lists:
  "buildDocumentStructure parsedXml = Inr d \<Longrightarrow> distinct_lists (searchIndex d)"
proof -
  assume "buildDocumentStructure parsedXml = Inr d"
  then have "buildSearchIndex (build_sections parsedXml) = Inr (searchIndex d)"
    by (auto simp: buildDocumentStructure_def Let_def split: sum.splits)
  moreover have "distinct_lists []"
    by (simp add: distinct_lists_def)
  ultimately show ?thesis
    unfolding buildSearchIndex_def using index_sections_distinct by blast
qed
lemma distinct_key_order: "distinct ks \<Longrightarrow> distinct (key_order ks)"
  by (auto simp: key_order_def)

lemma distinct_encountered: "distinct (encountered index kws)"
  by (simp add: encountered_def js_set_def)

lemma set_encountered:
  "set (encountered index kws) = {i. 0 < matches index kws i}"
  by (auto simp: encountered_def set_js_set matches_def filter_empty_conv)

lemma distinct_map_fst_sort_by_score:
  "distinct (map fst (sort_by_score entries)) = distinct (map fst entries)"
  by (simp add: sort_by_score_def distinct_map)

lemma set_sort_by_score: "set (sort_by_score entries) = set entries"
  by (simp add: sort_by_score_def)

lemma map_fst_tabulate: "map fst (map (\<lambda>i. (i, f i)) ys) = ys"
  by (induction ys) simp_all



text \<open>Every index that \<open>buildDocumentStructure\<close> returns lists sections of the map
  only.\<close>

lemma index_keywords_within:
  "index_keywords index sectionId kws = Inr index' \<Longrightarrow> sectionId \<in> K \<Longrightarrow>
   \<forall>(kw, ids) \<in> set index. set ids \<subseteq> K \<Longrightarrow> \<forall>(kw, ids) \<in> set index'. set ids \<subseteq> K"
proof (induction kws arbitrary: index)
  case Nil
  then show ?case by simp
next
  case (Cons kw kws)
  have added: "\<forall>(kw', ids') \<in> set (obj_set index kw ids). set ids' \<subseteq> K"
    if "set ids \<subseteq> K" for ids
    using that Cons.prems(3) in_obj_set [of _ _ index kw ids] by fast
  show ?case
  proof (cases "get_property index kw")
    case (Own ids)
    then have "(kw, ids) \<in> set index"
      by (auto simp: get_property_def dest!: map_of_SomeD split: option.splits if_splits)
    with Cons.prems(3) have "set ids \<subseteq> K"
      by fast
    with Cons.prems(2) have "set (ids @ [sectionId]) \<subseteq> K"
      by simp
    then have "\<forall>(kw', ids') \<in> set (if sectionId \<in> set ids then index
        else obj_set index kw (ids @ [sectionId])). set ids' \<subseteq> K"
      using added Cons.prems(3) by presburger
    with Cons.IH Cons.prems(1,2) Own show ?thesis
      by simp
  next
    case Inherited
    with Cons.prems(1) show ?thesis by simp
  next
    case Absent
    from Cons.prems(2) have "set [sectionId] \<subseteq> K"
      by simp
    then have "\<forall>(kw', ids') \<in> set (obj_set index kw [sectionId]). set ids' \<subseteq> K"
      by (rule added)
    with Cons.IH Cons.prems(1,2) Absent show ?thesis
      by simp
  qed
qed

lemma index_sections_within:
  "index_sections index entries = Inr index' \<Longrightarrow> fst ` set entries \<subseteq> K \<Longrightarrow>
   \<forall>(kw, ids) \<in> set index. set ids \<subseteq> K \<Longrightarrow> \<forall>(kw, ids) \<in> set index'. set ids \<subseteq> K"
proof (induction entries arbitrary: index)
  case Nil
  then show ?case by simp
next
  case (Cons entry entries)
  obtain sectionId sec where entry: "entry = (sectionId, sec)"
    by (cases entry)
  with Cons.prems(1) obtain mid where
    first: "index_keywords index sectionId
        (extractKeywords (title sec) @ extractKeywords (fullText sec)) = Inr mid" and
    rest: "index_sections mid entries = Inr index'"
    by (auto split: sum.splits)
  from entry Cons.prems(2) have "sectionId \<in> K" and sub: "fst ` set entries \<subseteq> K"
    by auto
  from index_keywords_within [OF first this(1) Cons.prems(3)]
  have "\<forall>(kw, ids) \<in> set mid. set ids \<subseteq> K" .
  with Cons.IH rest sub show ?case by blast
qed

lemma set_object_entries: "set (object_entries obj) = set obj"
  by (auto simp: object_entries_def)

lemma buildDocumentStructure_index_within:
  assumes "buildDocumentStructure parsedXml = Inr d"
  shows "index_within d"
proof -
  from assms have s: "sections d = build_sections parsedXml"
    and b: "buildSearchIndex (build_sections parsedXml) = Inr (searchIndex d)"
    by (auto simp: buildDocumentStructure_def Let_def split: sum.splits)
  from b have "index_sections [] (object_entries (sections d)) = Inr (searchIndex d)"
    by (simp only: buildSearchIndex_def s)
  then have "\<forall>(kw, ids) \<in> set (searchIndex d). set ids \<subseteq> fst ` set (sections d)"
    by (rule index_sections_within) (simp_all add: set_object_entries)
  then show ?thesis
    unfolding index_within_def list_all_iff by fast
qed


text \<open>
  C3, as the code has it. On an initialised snapshot whose index lists every section at
  most once under a keyword (and lists no id that names a member of \<open>Object.prototype\<close>),
  \<open>searchSections\<close> returns a result when no keyword of the query names an inherited
  member of the index object. What it returns is cut from the full ranking, which is what
  the search returns for the limit \<open>Infinity\<close>: the full ranking holds exactly the sections
  indexed under at least one keyword of the tokenized query, each once; the score of a
  section is the number of keywords of the query, repeats counted each time, under which
  it is indexed; the ranking is in descending order of score; sections with the same
  score stand in the order in which \<open>Object.entries\<close> lists the score table, which is the
  order of first encounter when no id is an array index. The result is \<open>slice(0, limit)\<close>
  of the full ranking: for a limit \<open>n \<ge> 0\<close>, its first \<open>n\<close> entries.
\<close>

theorem search_counts_keyword_occurrences:
  assumes init: "isInitialized p" and data: "parserData p = Some d"
    and plain: "plain_ids d" and dist: "distinct_lists (searchIndex d)"
  shows
    "(list_all (\<lambda>kw. get_property (searchIndex d) kw \<noteq> Inherited) (extractKeywords q) \<longrightarrow>
        (\<exists>results. searchSections p q limit = Inr results)) \<and>
     (searchSections p q limit = Inr results \<longrightarrow>
        (\<exists>full.
           rankedSections p q PosInf = Inr full \<and>
           results =
             map (\<lambda>(i, sc). \<lparr>r_section = map_of (sections d) i, r_score = sc\<rparr>)
               (slice0 full limit) \<and>
           (\<forall>n. limit = Fin n \<and> 0 \<le> n \<longrightarrow> slice0 full limit = take (nat n) full) \<and>
           distinct (map fst full) \<and>
           set (map fst full) = {i. 0 < matches (searchIndex d) (extractKeywords q) i} \<and>
           (\<forall>(i, sc) \<in> set full. sc = matches (searchIndex d) (extractKeywords q) i) \<and>
           sorted_wrt (\<lambda>a b. snd b \<le> snd a) full \<and>
           (\<forall>sc. map fst (filter (\<lambda>e. snd e = sc) full) =
              filter (\<lambda>i. matches (searchIndex d) (extractKeywords q) i = sc)
                (key_order (encountered (searchIndex d) (extractKeywords q)))) \<and>
           (list_all (\<lambda>i. array_index i = None)
              (encountered (searchIndex d) (extractKeywords q)) \<longrightarrow>
            key_order (encountered (searchIndex d) (extractKeywords q)) =
              encountered (searchIndex d) (extractKeywords q))))"
proof (intro conjI impI)
  let ?index = "searchIndex d"
  let ?kws = "extractKeywords q"
  let ?m = "matches ?index ?kws"
  let ?order = "key_order (encountered ?index ?kws)"
  let ?entries = "map (\<lambda>i. (i, ?m i)) ?order"
  let ?full = "sort_by_score ?entries"
  have table: "rankedSections p q lim =
     (if list_all (\<lambda>kw. get_property ?index kw \<noteq> Inherited) ?kws
      then Inr (slice0 ?full lim)
      else Inl (TypeError ''matchingSections.forEach is not a function''))" for lim
    using rankedSections_table [OF init data, of q lim] count_matches [OF dist, of ?kws]
    by simp
  {
    assume "list_all (\<lambda>kw. get_property ?index kw \<noteq> Inherited) ?kws"
    with table [of limit] data show "\<exists>results. searchSections p q limit = Inr results"
      by (simp add: searchSections_def)
  }
  assume run: "searchSections p q limit = Inr results"
  with table [of limit] data
  have own: "list_all (\<lambda>kw. get_property ?index kw \<noteq> Inherited) ?kws"
    by (auto simp: searchSections_def split: sum.splits if_splits)
  with table [of limit] have ranked: "rankedSections p q limit = Inr (slice0 ?full limit)"
    by simp
  from own table [of PosInf] have full: "rankedSections p q PosInf = Inr ?full"
    by simp
  from run ranked data
  have res: "results =
      map (\<lambda>(i, sc). \<lparr>r_section = map_of (sections d) i, r_score = sc\<rparr>) (slice0 ?full limit)"
    by (simp add: searchSections_def)
  have cut: "\<forall>n. limit = Fin n \<and> 0 \<le> n \<longrightarrow> slice0 ?full limit = take (nat n) ?full"
    by simp
  have "distinct ?order"
    by (rule distinct_key_order [OF distinct_encountered])
  then have once: "distinct (map fst ?full)"
    by (simp only: distinct_map_fst_sort_by_score map_fst_tabulate)
  have same: "set ?full = set ?entries"
    by (rule set_sort_by_score)
  have "set (map fst ?full) = fst ` set ?entries"
    by (simp only: set_map same)
  also have "\<dots> = set (map fst ?entries)"
    by (simp only: set_map)
  also have "\<dots> = set ?order"
    by (simp only: map_fst_tabulate)
  finally have exactly: "set (map fst ?full) = {i. 0 < ?m i}"
    by (simp only: set_key_order set_encountered)
  from same have scores: "\<forall>(i, sc) \<in> set ?full. sc = ?m i"
    by auto
  have desc: "sorted_wrt (\<lambda>a b. snd b \<le> snd a) ?full"
    by (rule sort_by_score_descending)
  have ties: "\<forall>sc. map fst (filter (\<lambda>e. snd e = sc) ?full) = filter (\<lambda>i. ?m i = sc) ?order"
  proof
    fix sc
    have "map fst (filter (\<lambda>e. snd e = sc) ?entries) = filter (\<lambda>i. ?m i = sc) ?order"
      by (simp add: filter_map o_def)
    then show "map fst (filter (\<lambda>e. snd e = sc) ?full) = filter (\<lambda>i. ?m i = sc) ?order"
      by (simp only: sort_by_score_stable)
  qed
  have plain_order: "list_all (\<lambda>i. array_index i = None) (encountered ?index ?kws) \<longrightarrow>
      ?order = encountered ?index ?kws"
    using key_order_plain by blast
  show "\<exists>full.
           rankedSections p q PosInf = Inr full \<and>
           results =
             map (\<lambda>(i, sc). \<lparr>r_section = map_of (sections d) i, r_score = sc\<rparr>)
               (slice0 full limit) \<and>
           (\<forall>n. limit = Fin n \<and> 0 \<le> n \<longrightarrow> slice0 full limit = take (nat n) full) \<and>
           distinct (map fst full) \<and>
           set (map fst full) = {i. 0 < ?m i} \<and>
           (\<forall>(i, sc) \<in> set full. sc = ?m i) \<and>
           sorted_wrt (\<lambda>a b. snd b \<le> snd a) full \<and>
           (\<forall>sc. map fst (filter (\<lambda>e. snd e = sc) full) = filter (\<lambda>i. ?m i = sc) ?order) \<and>
           (list_all (\<lambda>i. array_index i = None) (encountered ?index ?kws) \<longrightarrow>
            ?order = encountered ?index ?kws)"
    by (intro exI [of _ ?full] conjI full res cut once exactly scores desc ties plain_order)
qed

theorem search_counts_keyword_occurrences_witness:
  "isInitialized example_parser \<and> parserData example_parser = Some example_snapshot \<and>
   plain_ids example_snapshot \<and> distinct_lists (searchIndex example_snapshot) \<and>
   extractKeywords ''farm budget budget'' = [''farm'', ''budget'', ''budget''] \<and>
   list_all (\<lambda>kw. get_property (searchIndex example_snapshot) kw \<noteq> Inherited)
     (extractKeywords ''farm budget budget'') \<and>
   (\<exists>results full.
      searchSections example_parser ''farm budget budget'' (Fin 3) = Inr results \<and>
      rankedSections example_parser ''farm budget budget'' PosInf = Inr full \<and>
      full = [(''A'', 3), (''A1'', 2), (''B'', 2), (''C'', 2), (''D'', 2)] \<and>
      results =
        map (\<lambda>(i, sc). \<lparr>r_section = map_of (sections example_snapshot) i, r_score = sc\<rparr>)
          [(''A'', 3), (''A1'', 2), (''B'', 2)] \<and>
      set (map fst full) =
        {i. 0 < matches (searchIndex example_snapshot) (extractKeywords ''farm budget budget'') i} \<and>
      map fst (filter (\<lambda>e. snd e = 2) full) =
        filter (\<lambda>i. matches (searchIndex example_snapshot)
                  (extractKeywords ''farm budget budget'') i = 2)
          (key_order (encountered (searchIndex example_snapshot)
             (extractKeywords ''farm budget budget'')))) \<and>
   matches (searchIndex example_snapshot) (extractKeywords ''farm budget budget'') ''A'' = 3 \<and>
   list_all (\<lambda>i. array_index i = None)
     (encountered (searchIndex example_snapshot) (extractKeywords ''farm budget budget'')) \<and>
   key_order (encountered (searchIndex example_snapshot)
       (extractKeywords ''farm budget budget'')) =
     encountered (searchIndex example_snapshot) (extractKeywords ''farm budget budget'')"
proof -
  let ?q = "''farm budget budget''"
  let ?index = "searchIndex example_snapshot"
  have init: "isInitialized example_parser"
    by (simp add: example_parser_def)
  have data: "parserData example_parser = Some example_snapshot"
    by (simp add: example_parser_def)
  have plain: "plain_ids example_snapshot"
    by code_simp
  have dist: "distinct_lists ?index"
    by code_simp
  have kws: "extractKeywords ?q = [''farm'', ''budget'', ''budget'']"
    by code_simp
  have own: "list_all (\<lambda>kw. get_property ?index kw \<noteq> Inherited) (extractKeywords ?q)"
    by code_simp
  have ranked: "rankedSections example_parser ?q PosInf =
      Inr [(''A'', 3), (''A1'', 2), (''B'', 2), (''C'', 2), (''D'', 2)]"
    by code_simp
  note inst = search_counts_keyword_occurrences [OF init data plain dist, of ?q "Fin 3"]
  from inst own obtain results where run: "searchSections example_parser ?q (Fin 3) = Inr results"
    by blast
  from inst [of results] run obtain full where
    r1: "rankedSections example_parser ?q PosInf = Inr full" and
    r2: "results =
           map (\<lambda>(i, sc). \<lparr>r_section = map_of (sections example_snapshot) i, r_score = sc\<rparr>)
             (slice0 full (Fin 3))" and
    r3: "\<forall>n. Fin 3 = Fin n \<and> 0 \<le> n \<longrightarrow> slice0 full (Fin 3) = take (nat n) full" and
    r4: "set (map fst full) = {i. 0 < matches ?index (extractKeywords ?q) i}" and
    r5: "\<forall>(i, sc) \<in> set full. sc = matches ?index (extractKeywords ?q) i" and
    r6: "\<forall>sc. map fst (filter (\<lambda>e. snd e = sc) full) =
              filter (\<lambda>i. matches ?index (extractKeywords ?q) i = sc)
                (key_order (encountered ?index (extractKeywords ?q)))" and
    r7: "list_all (\<lambda>i. array_index i = None) (encountered ?index (extractKeywords ?q)) \<longrightarrow>
         key_order (encountered ?index (extractKeywords ?q)) =
           encountered ?index (extractKeywords ?q)"
    by blast
  from r1 ranked have eq: "full = [(''A'', 3), (''A1'', 2), (''B'', 2), (''C'', 2), (''D'', 2)]"
    by simp
  from r3 have "slice0 full (Fin 3) = take 3 full"
    by force
  then have cut: "slice0 full (Fin 3) = [(''A'', 3), (''A1'', 2), (''B'', 2)]"
    unfolding eq by simp
  have res: "results =
      map (\<lambda>(i, sc). \<lparr>r_section = map_of (sections example_snapshot) i, r_score = sc\<rparr>)
        [(''A'', 3), (''A1'', 2), (''B'', 2)]"
    using r2 unfolding cut .
  from r6 have tie: "map fst (filter (\<lambda>e. snd e = 2) full) =
        filter (\<lambda>i. matches ?index (extractKeywords ?q) i = 2)
          (key_order (encountered ?index (extractKeywords ?q)))"
    by blast
  have found: "\<exists>results full.
      searchSections example_parser ?q (Fin 3) = Inr results \<and>
      rankedSections example_parser ?q PosInf = Inr full \<and>
      full = [(''A'', 3), (''A1'', 2), (''B'', 2), (''C'', 2), (''D'', 2)] \<and>
      results =
        map (\<lambda>(i, sc). \<lparr>r_section = map_of (sections example_snapshot) i, r_score = sc\<rparr>)
          [(''A'', 3), (''A1'', 2), (''B'', 2)] \<and>
      set (map fst full) = {i. 0 < matches ?index (extractKeywords ?q) i} \<and>
      map fst (filter (\<lambda>e. snd e = 2) full) =
        filter (\<lambda>i. matches ?index (extractKeywords ?q) i = 2)
          (key_order (encountered ?index (extractKeywords ?q)))"
    by (intro exI [of _ results] exI [of _ full] conjI run r1 eq res r4 tie)
  from r5 have score: "matches ?index (extractKeywords ?q) ''A'' = 3"
    unfolding eq by simp
  have names: "list_all (\<lambda>i. array_index i = None) (encountered ?index (extractKeywords ?q))"
    by code_simp
  with r7 have order: "key_order (encountered ?index (extractKeywords ?q)) =
      encountered ?index (extractKeywords ?q)"
    by blast
  show ?thesis
    by (intro conjI init data plain dist kws own found score names order)
qed

text \<open>
  C3 as stated fails: the query \<open>farm farm\<close> has the token \<open>farm\<close> twice, and the section
  indexed under \<open>farm\<close> gets the score 2, although one distinct token matches it.
\<close>

theorem repeated_token_counterexample:
  "extractKeywords ''farm farm'' = [''farm'', ''farm''] \<and>
   searchSections example_parser ''farm farm'' (Fin 10) =
     Inr [\<lparr>r_section = map_of (sections example_snapshot) ''A'', r_score = 2\<rparr>] \<and>
   matches (searchIndex example_snapshot) (remdups (extractKeywords ''farm farm'')) ''A'' = 1"
  by code_simp

subsection \<open>Arguments of the tool operations\<close>








end
